theory Spec2Isabelle
  imports Main "HOL-Library.Word" "HOL-Library.Signed_Division"
begin

unbundle bit_operations_syntax

section \<open>Data model of the sketch\<close>

text \<open>
  The program is the Arduino sketch in its current form, with the \<open>PULSE\<close> pattern and
  the commands \<open>'0'\<close> to \<open>'9'\<close>; the repository also keeps an earlier variant of the
  same file, without \<open>PULSE\<close>.

  The sketch declares one class, \<open>NeoPatterns\<close>, derived from the hardware library's
  \<open>Adafruit_NeoPixel\<close>, three global objects of it (\<open>Strip1\<close>, \<open>Strip2\<close>, \<open>Strip3\<close>)
  and one completion callback, \<open>StripComplete\<close>, that reads and writes all three globals.
  A method of one strip can therefore change another strip, so methods that may reach the
  callback are functions on the whole sketch state, taking the object they run on as a
  \<open>strip_id\<close>.
\<close>

type_synonym u8 = "8 word"
type_synonym u16 = "16 word"
type_synonym u32 = "32 word"

datatype pattern = NONE | RAINBOW_CYCLE | THEATER_CHASE | COLOR_WIPE | SCANNER | FADE | PULSE

datatype direction = FORWARD | REVERSE

text \<open>
  The values a \<open>void (*)()\<close> member takes in this sketch: the null pointer, or the
  address of \<open>StripComplete\<close>, the only callback the file defines.
\<close>

datatype callback = NULL | StripCompletePtr

text \<open>
  The width of the C type \<open>int\<close> is fixed by the board, not by the sketch: 16 bits on the
  AVR boards (where \<open>uint16_t\<close> is \<open>unsigned int\<close> and mixed expressions are computed
  modulo \<open>2^16\<close>), 32 bits on the ARM boards (where \<open>uint16_t\<close> promotes to a signed
  \<open>int\<close>). The expressions whose value depends on it take the width as a parameter.
\<close>

datatype int_width = Int16 | Int32

text \<open>
  One \<open>NeoPatterns\<close> object. \<open>pixels\<close> is the colour buffer of the base class, one
  32-bit colour per LED, and \<open>shown\<close> is the sequence of buffers that \<open>show()\<close> has
  pushed to the device, oldest first; the other fields are the member variables of the
  class.
\<close>

record NeoPatterns =
  pixels :: "u32 list"
  shown :: "u32 list list"
  ActivePattern :: pattern
  Direction :: direction
  Interval :: u32
  lastUpdate :: u32
  Color1 :: u32
  Color2 :: u32
  TotalSteps :: u16
  Index :: u16
  OnComplete :: callback

text \<open>
  The global state: the three strips, and \<open>completions\<close>, the number of times the body of
  \<open>StripComplete\<close> has been entered.
\<close>

record sketch =
  Strip1 :: NeoPatterns
  Strip2 :: NeoPatterns
  Strip3 :: NeoPatterns
  completions :: nat

datatype strip_id = S1 | S2 | S3

fun strip_of :: "strip_id \<Rightarrow> sketch \<Rightarrow> NeoPatterns" where
  "strip_of S1 w = Strip1 w"
| "strip_of S2 w = Strip2 w"
| "strip_of S3 w = Strip3 w"

fun put_strip :: "strip_id \<Rightarrow> NeoPatterns \<Rightarrow> sketch \<Rightarrow> sketch" where
  "put_strip S1 s w = w\<lparr>Strip1 := s\<rparr>"
| "put_strip S2 s w = w\<lparr>Strip2 := s\<rparr>"
| "put_strip S3 s w = w\<lparr>Strip3 := s\<rparr>"

section \<open>The pixel buffer of the base class\<close>

text \<open>
  The base class \<open>Adafruit_NeoPixel\<close> belongs to the hardware library and is not in the
  repository. The five operations the sketch uses are modelled from the buffer contract
  of the specification (section 4.1, PixelBuffer).
\<close>

text \<open>
  Modelled from the spec: \<open>numPixels()\<close> of \<open>Adafruit_NeoPixel\<close>, the length \<open>N\<close> of the
  buffer (a \<open>uint16_t\<close>, so at most 65535).
\<close>

definition numPixels :: "NeoPatterns \<Rightarrow> nat" where
  "numPixels s = length (pixels s)"

text \<open>
  Modelled from the spec: \<open>setPixelColor(n, c)\<close> of \<open>Adafruit_NeoPixel\<close>, which stores a
  colour at a given cell and is a silent no-op when the index is out of range.
\<close>

definition setPixelColor :: "nat \<Rightarrow> u32 \<Rightarrow> NeoPatterns \<Rightarrow> NeoPatterns" where
  "setPixelColor n c s = (if n < numPixels s then s\<lparr>pixels := (pixels s)[n := c]\<rparr> else s)"

text \<open>
  Modelled from the spec: \<open>getPixelColor(n)\<close> of \<open>Adafruit_NeoPixel\<close>, which returns the
  colour last set (0 out of range).
\<close>

definition getPixelColor :: "nat \<Rightarrow> NeoPatterns \<Rightarrow> u32" where
  "getPixelColor n s = (if n < numPixels s then pixels s ! n else 0)"

text \<open>
  Modelled from the spec: \<open>show()\<close> of \<open>Adafruit_NeoPixel\<close>, the commit, which pushes the
  whole buffer to the physical strip. Here it appends the buffer to the device log.
\<close>

definition showPixels :: "NeoPatterns \<Rightarrow> NeoPatterns" where
  "showPixels s = s\<lparr>shown := shown s @ [pixels s]\<rparr>"

text \<open>
  Modelled from the spec: \<open>Color(r, g, b)\<close> of \<open>Adafruit_NeoPixel\<close>, the RGB triple packed
  into 32 bits as \<open>0x00RRGGBB\<close>, the layout \<open>Red\<close>, \<open>Green\<close> and \<open>Blue\<close> below read.
\<close>

definition Color :: "u8 \<Rightarrow> u8 \<Rightarrow> u8 \<Rightarrow> u32" where
  "Color r g b = push_bit 16 (ucast r) OR push_bit 8 (ucast g) OR ucast b"

section \<open>The methods of NeoPatterns\<close>

subsection \<open>Colour helpers\<close>

definition Red :: "u32 \<Rightarrow> u8" where
  "Red color = ucast (drop_bit 16 color AND 0xFF)"

definition Green :: "u32 \<Rightarrow> u8" where
  "Green color = ucast (drop_bit 8 color AND 0xFF)"

definition Blue :: "u32 \<Rightarrow> u8" where
  "Blue color = ucast (color AND 0xFF)"

definition DimColor :: "u32 \<Rightarrow> u32" where
  "DimColor color = Color (drop_bit 1 (Red color)) (drop_bit 1 (Green color)) (drop_bit 1 (Blue color))"

text \<open>
  \<open>Wheel\<close> works on a \<open>byte\<close>; the arguments of \<open>Color\<close> are computed in \<open>int\<close> and
  converted to \<open>uint8_t\<close>, which for the values that occur (at most 255) is the same as
  computing in 8 bits.
\<close>

definition Wheel :: "u8 \<Rightarrow> u32" where
  "Wheel WheelPos0 =
     (let WheelPos = 255 - WheelPos0 in
      if WheelPos < 85 then Color (255 - WheelPos * 3) 0 (WheelPos * 3)
      else if WheelPos < 170 then
        (let WheelPos = WheelPos - 85 in Color 0 (WheelPos * 3) (255 - WheelPos * 3))
      else
        (let WheelPos = WheelPos - 170 in Color (WheelPos * 3) (255 - WheelPos * 3) 0))"

definition ColorSet :: "u32 \<Rightarrow> NeoPatterns \<Rightarrow> NeoPatterns" where
  "ColorSet color s =
     showPixels (fold (\<lambda>i. setPixelColor i color) [0..<numPixels s] s)"

subsection \<open>Direction reversal and the completion callback\<close>

definition Reverse :: "NeoPatterns \<Rightarrow> NeoPatterns" where
  "Reverse s =
     (if Direction s = FORWARD
      then s\<lparr>Direction := REVERSE, Index := TotalSteps s - 1\<rparr>
      else s\<lparr>Direction := FORWARD, Index := 0\<rparr>)"

definition StripComplete :: "sketch \<Rightarrow> sketch" where
  "StripComplete w0 =
     (let w = w0\<lparr>completions := completions w0 + 1\<rparr>;
          w = (if ActivePattern (Strip1 w) = PULSE then w\<lparr>Strip1 := Reverse (Strip1 w)\<rparr> else w);
          w = (if ActivePattern (Strip2 w) = PULSE then w\<lparr>Strip2 := Reverse (Strip2 w)\<rparr> else w);
          w = (if ActivePattern (Strip3 w) = PULSE then w\<lparr>Strip3 := Reverse (Strip3 w)\<rparr> else w)
      in w)"

text \<open>
  Calling through a function pointer: a call through the null pointer is a fault
  (\<open>None\<close>).
\<close>

fun invoke :: "callback \<Rightarrow> sketch \<Rightarrow> sketch option" where
  "invoke NULL w = None"
| "invoke StripCompletePtr w = Some (StripComplete w)"

subsection \<open>Increment\<close>

text \<open>
  \<open>Index\<close> is a \<open>uint16_t\<close>: \<open>Index++\<close> and \<open>--Index\<close> wrap modulo \<open>2^16\<close>, and
  \<open>Index <= 0\<close> holds exactly when \<open>Index\<close> is 0. The object is updated in place before
  the callback runs, so the callback sees the reset \<open>Index\<close>.
\<close>

definition Increment :: "strip_id \<Rightarrow> sketch \<Rightarrow> sketch option" where
  "Increment k w =
     (let s = strip_of k w in
      if Direction s = FORWARD then
        (let s = s\<lparr>Index := Index s + 1\<rparr> in
         if Index s \<ge> TotalSteps s then
           (let s = s\<lparr>Index := 0\<rparr> in
            if OnComplete s \<noteq> NULL then invoke (OnComplete s) (put_strip k s w)
            else Some (put_strip k s w))
         else Some (put_strip k s w))
      else
        (let s = s\<lparr>Index := Index s - 1\<rparr> in
         if Index s \<le> 0 then
           (let s = s\<lparr>Index := TotalSteps s - 1\<rparr> in
            if OnComplete s \<noteq> NULL then invoke (OnComplete s) (put_strip k s w)
            else Some (put_strip k s w))
         else Some (put_strip k s w)))"

subsection \<open>Pattern initialisers\<close>

text \<open>
  The \<open>uint8_t interval\<close> argument is zero-extended into the \<open>unsigned long\<close> member.
  \<open>Scanner\<close> takes no direction and leaves \<open>Direction\<close> as it is.
\<close>

definition RainbowCycle :: "u8 \<Rightarrow> direction \<Rightarrow> NeoPatterns \<Rightarrow> NeoPatterns" where
  "RainbowCycle interval dir s =
     s\<lparr>ActivePattern := RAINBOW_CYCLE, Interval := ucast interval, TotalSteps := 255,
       Index := 0, Direction := dir\<rparr>"

definition TheaterChase :: "u32 \<Rightarrow> u32 \<Rightarrow> u8 \<Rightarrow> direction \<Rightarrow> NeoPatterns \<Rightarrow> NeoPatterns" where
  "TheaterChase color1 color2 interval dir s =
     s\<lparr>ActivePattern := THEATER_CHASE, Interval := ucast interval,
       TotalSteps := of_nat (numPixels s), Color1 := color1, Color2 := color2,
       Index := 0, Direction := dir\<rparr>"

definition ColorWipe :: "u32 \<Rightarrow> u8 \<Rightarrow> direction \<Rightarrow> NeoPatterns \<Rightarrow> NeoPatterns" where
  "ColorWipe color interval dir s =
     s\<lparr>ActivePattern := COLOR_WIPE, Interval := ucast interval,
       TotalSteps := of_nat (numPixels s), Color1 := color, Index := 0, Direction := dir\<rparr>"

definition Scanner :: "u32 \<Rightarrow> u8 \<Rightarrow> NeoPatterns \<Rightarrow> NeoPatterns" where
  "Scanner color1 interval s =
     s\<lparr>ActivePattern := SCANNER, Interval := ucast interval,
       TotalSteps := (of_nat (numPixels s) - 1) * 2, Color1 := color1, Index := 0\<rparr>"

definition Fade :: "u32 \<Rightarrow> u32 \<Rightarrow> u16 \<Rightarrow> u8 \<Rightarrow> direction \<Rightarrow> NeoPatterns \<Rightarrow> NeoPatterns" where
  "Fade color1 color2 steps interval dir s =
     s\<lparr>ActivePattern := FADE, Interval := ucast interval, TotalSteps := steps,
       Color1 := color1, Color2 := color2, Index := 0, Direction := dir\<rparr>"

definition Pulse :: "u32 \<Rightarrow> u32 \<Rightarrow> u16 \<Rightarrow> u8 \<Rightarrow> direction \<Rightarrow> NeoPatterns \<Rightarrow> NeoPatterns" where
  "Pulse color1 color2 steps interval dir s =
     s\<lparr>ActivePattern := PULSE, Interval := ucast interval, TotalSteps := steps,
       Color1 := color1, Color2 := color2, Index := 0, Direction := dir\<rparr>"

subsection \<open>Per-pattern updates\<close>

text \<open>
  Each update writes the buffer, calls \<open>show()\<close> and then \<open>Increment()\<close>. Each \<open>for\<close> runs
  \<open>i\<close> over \<open>0 .. numPixels()-1\<close>. The counter \<open>i\<close> is an \<open>int\<close>; it stays in range
  also where \<open>int\<close> has 16 bits, since an object there has at most 65535 bytes and the
  library's buffer takes three bytes per cell.

  \<open>RainbowCycleUpdate\<close> computes \<open>i * 256\<close> in \<open>int\<close>: with a 16-bit \<open>int\<close> this
  overflows from \<open>i = 128\<close> on, which is undefined behaviour (\<open>None\<close>); the quotient is
  then added to \<open>Index\<close> (in unsigned 16-bit arithmetic there, in \<open>int\<close> with 32 bits)
  and masked with 255.
\<close>

definition rainbow_hue :: "int_width \<Rightarrow> nat \<Rightarrow> nat \<Rightarrow> u16 \<Rightarrow> u8 option" where
  "rainbow_hue iw i n idx =
     (case iw of
        Int16 \<Rightarrow>
          if i * 256 > 32767 then None
          else Some (ucast (((of_nat (i * 256 div n) :: u16) + idx) AND 255))
      | Int32 \<Rightarrow> Some (word_of_int ((int (i * 256 div n) + uint idx) AND 255)))"

fun rainbow_loop :: "int_width \<Rightarrow> nat list \<Rightarrow> NeoPatterns \<Rightarrow> NeoPatterns option" where
  "rainbow_loop iw [] s = Some s"
| "rainbow_loop iw (i # is) s =
     (case rainbow_hue iw i (numPixels s) (Index s) of
        None \<Rightarrow> None
      | Some h \<Rightarrow> rainbow_loop iw is (setPixelColor i (Wheel h) s))"

definition RainbowCycleUpdate :: "int_width \<Rightarrow> strip_id \<Rightarrow> sketch \<Rightarrow> sketch option" where
  "RainbowCycleUpdate iw k w =
     (let s = strip_of k w in
      case rainbow_loop iw [0..<numPixels s] s of
        None \<Rightarrow> None
      | Some s' \<Rightarrow> Increment k (put_strip k (showPixels s') w))"

text \<open>
  \<open>(i + Index) % 3\<close>: the sum is taken modulo \<open>2^16\<close> with a 16-bit \<open>int\<close>, exactly
  with 32 bits.
\<close>

definition chase_hit :: "int_width \<Rightarrow> nat \<Rightarrow> u16 \<Rightarrow> bool" where
  "chase_hit iw i idx =
     (case iw of
        Int16 \<Rightarrow> ((of_nat i :: u16) + idx) mod 3 = 0
      | Int32 \<Rightarrow> (int i + uint idx) mod 3 = 0)"

definition TheaterChaseUpdate :: "int_width \<Rightarrow> strip_id \<Rightarrow> sketch \<Rightarrow> sketch option" where
  "TheaterChaseUpdate iw k w =
     (let s = strip_of k w;
          s' = fold (\<lambda>i s. if chase_hit iw i (Index s) then setPixelColor i (Color1 s) s
                            else setPixelColor i (Color2 s) s) [0..<numPixels s] s
      in Increment k (put_strip k (showPixels s') w))"

definition ColorWipeUpdate :: "strip_id \<Rightarrow> sketch \<Rightarrow> sketch option" where
  "ColorWipeUpdate k w =
     (let s = strip_of k w;
          s' = setPixelColor (unat (Index s)) (Color1 s) s
      in Increment k (put_strip k (showPixels s') w))"

text \<open>
  \<open>i == TotalSteps - Index\<close>: the difference wraps modulo \<open>2^16\<close> with a 16-bit
  \<open>int\<close> and is a possibly negative \<open>int\<close> with 32 bits.
\<close>

definition scan_left :: "int_width \<Rightarrow> nat \<Rightarrow> u16 \<Rightarrow> u16 \<Rightarrow> bool" where
  "scan_left iw i tsteps idx =
     (case iw of
        Int16 \<Rightarrow> i = unat (tsteps - idx)
      | Int32 \<Rightarrow> int i = uint tsteps - uint idx)"

definition ScannerUpdate :: "int_width \<Rightarrow> strip_id \<Rightarrow> sketch \<Rightarrow> sketch option" where
  "ScannerUpdate iw k w =
     (let s = strip_of k w;
          s' = fold (\<lambda>i s. if i = unat (Index s) then setPixelColor i (Color1 s) s
                            else if scan_left iw i (TotalSteps s) (Index s)
                                 then setPixelColor i (Color1 s) s
                            else setPixelColor i (DimColor (getPixelColor i s)) s)
                    [0..<numPixels s] s
      in Increment k (put_strip k (showPixels s') w))"

text \<open>
  The interpolation \<open>((c1 * (TotalSteps - Index)) + (c2 * Index)) / TotalSteps\<close>, stored
  in a \<open>uint8_t\<close>. A zero \<open>TotalSteps\<close> divides by zero, which is undefined behaviour
  (\<open>None\<close>). With a 16-bit \<open>int\<close> every operation is unsigned and wraps modulo
  \<open>2^16\<close>. With a 32-bit \<open>int\<close> the operands are signed, bounded in absolute value by
  \<open>2 * 255 * 65535\<close>, so nothing overflows, and the division truncates towards zero.
\<close>

definition fade_channel :: "int_width \<Rightarrow> u8 \<Rightarrow> u8 \<Rightarrow> u16 \<Rightarrow> u16 \<Rightarrow> u8 option" where
  "fade_channel iw c1 c2 tsteps idx =
     (if tsteps = 0 then None
      else Some (case iw of
        Int16 \<Rightarrow> ucast (((ucast c1 * (tsteps - idx)) + (ucast c2 * idx)) div tsteps)
      | Int32 \<Rightarrow> word_of_int
          (((uint c1 * (uint tsteps - uint idx)) + (uint c2 * uint idx)) sdiv uint tsteps)))"

definition FadeUpdate :: "int_width \<Rightarrow> strip_id \<Rightarrow> sketch \<Rightarrow> sketch option" where
  "FadeUpdate iw k w =
     (let s = strip_of k w in
      case fade_channel iw (Red (Color1 s)) (Red (Color2 s)) (TotalSteps s) (Index s) of
        None \<Rightarrow> None
      | Some red \<Rightarrow>
      case fade_channel iw (Green (Color1 s)) (Green (Color2 s)) (TotalSteps s) (Index s) of
        None \<Rightarrow> None
      | Some green \<Rightarrow>
      case fade_channel iw (Blue (Color1 s)) (Blue (Color2 s)) (TotalSteps s) (Index s) of
        None \<Rightarrow> None
      | Some blue \<Rightarrow>
        Increment k (put_strip k (showPixels (ColorSet (Color red green blue) s)) w))"

definition PulseUpdate :: "int_width \<Rightarrow> strip_id \<Rightarrow> sketch \<Rightarrow> sketch option" where
  "PulseUpdate iw k w = FadeUpdate iw k w"

subsection \<open>Update\<close>

text \<open>
  \<open>Update\<close> reads \<open>millis()\<close> twice, once in the test and once in the assignment; the two
  readings are the arguments \<open>now\<close> and \<open>now'\<close>. The difference is an \<open>unsigned long\<close>
  and wraps modulo \<open>2^32\<close>.
\<close>

definition Update :: "int_width \<Rightarrow> strip_id \<Rightarrow> u32 \<Rightarrow> u32 \<Rightarrow> sketch \<Rightarrow> sketch option" where
  "Update iw k now now' w =
     (if (now - lastUpdate (strip_of k w)) > Interval (strip_of k w) then
        (let w = put_strip k ((strip_of k w)\<lparr>lastUpdate := now'\<rparr>) w in
         case ActivePattern (strip_of k w) of
           RAINBOW_CYCLE \<Rightarrow> RainbowCycleUpdate iw k w
         | THEATER_CHASE \<Rightarrow> TheaterChaseUpdate iw k w
         | COLOR_WIPE \<Rightarrow> ColorWipeUpdate k w
         | SCANNER \<Rightarrow> ScannerUpdate iw k w
         | FADE \<Rightarrow> FadeUpdate iw k w
         | PULSE \<Rightarrow> PulseUpdate iw k w
         | NONE \<Rightarrow> Some w)
      else Some w)"

section \<open>The sketch: objects, serial commands, main loop\<close>

text \<open>
  The three global objects are zero-initialised and then constructed with 300 pixels each
  (buffer cleared) and \<open>&StripComplete\<close> as callback.
\<close>

definition new_NeoPatterns :: "nat \<Rightarrow> callback \<Rightarrow> NeoPatterns" where
  "new_NeoPatterns n cb =
     \<lparr>pixels = replicate n 0, shown = [], ActivePattern = NONE, Direction = FORWARD,
      Interval = 0, lastUpdate = 0, Color1 = 0, Color2 = 0, TotalSteps = 0, Index = 0,
      OnComplete = cb\<rparr>"

definition power_on :: sketch where
  "power_on =
     \<lparr>Strip1 = new_NeoPatterns 300 StripCompletePtr,
      Strip2 = new_NeoPatterns 300 StripCompletePtr,
      Strip3 = new_NeoPatterns 300 StripCompletePtr,
      completions = 0\<rparr>"

text \<open>
  \<open>read_from_serial\<close> takes what the serial port holds: \<open>None\<close> when no byte is
  available, otherwise the byte read. The character codes of \<open>'0'\<close> to \<open>'9'\<close> are 48
  to 57. \<open>idle_solid c\<close> is the pair of statements
  \<open>Strip.ActivePattern = NONE; Strip.ColorSet(c);\<close> that seven of the branches run.
\<close>

definition idle_solid :: "u32 \<Rightarrow> NeoPatterns \<Rightarrow> NeoPatterns" where
  "idle_solid c s = ColorSet c (s\<lparr>ActivePattern := NONE\<rparr>)"

definition read_from_serial :: "u8 option \<Rightarrow> sketch \<Rightarrow> sketch" where
  "read_from_serial inp w =
     (case inp of
        None \<Rightarrow> w
      | Some incomingbyte \<Rightarrow>
          if incomingbyte = 48 then
            w\<lparr>Strip1 := idle_solid (Color 0 0 0) (Strip1 w),
              Strip2 := idle_solid (Color 0 0 0) (Strip2 w),
              Strip3 := idle_solid (Color 0 0 0) (Strip3 w)\<rparr>
          else if incomingbyte = 49 then
            w\<lparr>Strip1 := Pulse (Color 0 0 0) (Color 127 127 0) 50 10 FORWARD (Strip1 w)\<rparr>
          else if incomingbyte = 50 then
            w\<lparr>Strip2 := Pulse (Color 0 0 0) (Color 0 127 0) 50 10 FORWARD (Strip2 w)\<rparr>
          else if incomingbyte = 51 then
            w\<lparr>Strip3 := Pulse (Color 0 0 0) (Color 0 0 127) 50 10 FORWARD (Strip3 w)\<rparr>
          else if incomingbyte = 52 then
            w\<lparr>Strip1 := idle_solid (Color 127 0 0) (Strip1 w)\<rparr>
          else if incomingbyte = 53 then
            w\<lparr>Strip2 := idle_solid (Color 127 0 0) (Strip2 w)\<rparr>
          else if incomingbyte = 54 then
            w\<lparr>Strip3 := idle_solid (Color 127 0 0) (Strip3 w)\<rparr>
          else if incomingbyte = 55 then
            w\<lparr>Strip1 := idle_solid (Color 127 127 0) (Strip1 w)\<rparr>
          else if incomingbyte = 56 then
            w\<lparr>Strip2 := idle_solid (Color 0 127 0) (Strip2 w)\<rparr>
          else if incomingbyte = 57 then
            w\<lparr>Strip3 := idle_solid (Color 0 0 127) (Strip3 w)\<rparr>
          else w)"

text \<open>
  One pass of \<open>loop()\<close>: the three updates, each with its own two clock readings, then
  the serial port.
\<close>

definition loop :: "int_width \<Rightarrow> (u32 \<times> u32) \<Rightarrow> (u32 \<times> u32) \<Rightarrow> (u32 \<times> u32) \<Rightarrow> u8 option
                     \<Rightarrow> sketch \<Rightarrow> sketch option" where
  "loop iw t1 t2 t3 inp w =
     (case Update iw S1 (fst t1) (snd t1) w of None \<Rightarrow> None | Some w \<Rightarrow>
      case Update iw S2 (fst t2) (snd t2) w of None \<Rightarrow> None | Some w \<Rightarrow>
      case Update iw S3 (fst t3) (snd t3) w of None \<Rightarrow> None | Some w \<Rightarrow>
      Some (read_from_serial inp w))"

section \<open>Notions used in the statements\<close>

text \<open>
  \<open>paints s s'\<close>: the object \<open>s'\<close> is \<open>s\<close> with the contents of its buffer changed and
  nothing else, the buffer keeping its length.
\<close>

definition paints :: "NeoPatterns \<Rightarrow> NeoPatterns \<Rightarrow> bool" where
  "paints s s' \<longleftrightarrow> s' = s\<lparr>pixels := pixels s'\<rparr> \<and> length (pixels s') = length (pixels s)"

text \<open>
  \<open>still s\<close> forgets the position of \<open>s\<close> in its pattern: two objects with the same
  \<open>still\<close> differ at most in \<open>Direction\<close> and \<open>Index\<close>.
\<close>

definition still :: "NeoPatterns \<Rightarrow> NeoPatterns" where
  "still s = s\<lparr>Direction := FORWARD, Index := 0\<rparr>"

text \<open>
  What \<open>Increment\<close> does with the callback at a cycle boundary: nothing when the pointer
  is null, one run of \<open>StripComplete\<close> otherwise.
\<close>

definition complete :: "callback \<Rightarrow> sketch \<Rightarrow> sketch" where
  "complete cb w = (case cb of NULL \<Rightarrow> w | StripCompletePtr \<Rightarrow> StripComplete w)"

text \<open>
  \<open>at_boundary s\<close>: the branch of \<open>Increment\<close> that resets \<open>Index\<close> is the one taken
  from \<open>s\<close>. \<open>next_Index s\<close>: the value \<open>Increment\<close> leaves in \<open>Index\<close> before any
  callback runs.
\<close>

definition at_boundary :: "NeoPatterns \<Rightarrow> bool" where
  "at_boundary s =
     (if Direction s = FORWARD then \<not> Index s + 1 < TotalSteps s else Index s = 1)"

definition next_Index :: "NeoPatterns \<Rightarrow> u16" where
  "next_Index s =
     (if Direction s = FORWARD then (if Index s + 1 < TotalSteps s then Index s + 1 else 0)
      else (if Index s = 1 then TotalSteps s - 1 else Index s - 1))"

text \<open>
  \<open>renders s s'\<close>: \<open>s'\<close> is \<open>s\<close> after one frame was written and committed: only the
  buffer contents and the device log differ, and the log has grown by the new buffer,
  pushed once or twice.
\<close>

definition renders :: "NeoPatterns \<Rightarrow> NeoPatterns \<Rightarrow> bool" where
  "renders s s' \<longleftrightarrow>
     s' = s\<lparr>pixels := pixels s', shown := shown s'\<rparr> \<and>
     length (pixels s') = length (pixels s) \<and>
     (shown s' = shown s @ [pixels s'] \<or> shown s' = shown s @ [pixels s', pixels s'])"

text \<open>
  The states in which the frame computation of the active pattern has defined behaviour:
  no division by zero in Fade and Pulse, no signed overflow of \<open>i * 256\<close> in
  RainbowCycle.
\<close>

definition update_defined :: "int_width \<Rightarrow> NeoPatterns \<Rightarrow> bool" where
  "update_defined iw s =
     (case ActivePattern s of
        FADE \<Rightarrow> TotalSteps s \<noteq> 0
      | PULSE \<Rightarrow> TotalSteps s \<noteq> 0
      | RAINBOW_CYCLE \<Rightarrow> iw = Int32 \<or> numPixels s \<le> 128
      | _ \<Rightarrow> True)"

text \<open>
  The interpolation as the specification words it, over the integers:
  \<open>(channel1 * (TotalSteps - Index) + channel2 * Index) / TotalSteps\<close>. \<open>fits\<close> says
  that a numerator is representable in the unsigned type the board computes it in, and
  \<open>channel_fits\<close> that the three numerators of a state are.
\<close>

definition lerp :: "int \<Rightarrow> int \<Rightarrow> int \<Rightarrow> int \<Rightarrow> int" where
  "lerp c1 c2 t i = (c1 * (t - i) + c2 * i) div t"

definition fits :: "int_width \<Rightarrow> int \<Rightarrow> bool" where
  "fits iw x = (case iw of Int16 \<Rightarrow> x < 65536 | Int32 \<Rightarrow> True)"

definition channel_fits :: "int_width \<Rightarrow> u32 \<Rightarrow> u32 \<Rightarrow> u16 \<Rightarrow> u16 \<Rightarrow> bool" where
  "channel_fits iw color1 color2 tsteps idx =
     (fits iw (uint (Red color1) * (uint tsteps - uint idx) + uint (Red color2) * uint idx) \<and>
      fits iw (uint (Green color1) * (uint tsteps - uint idx) + uint (Green color2) * uint idx) \<and>
      fits iw (uint (Blue color1) * (uint tsteps - uint idx) + uint (Blue color2) * uint idx))"

text \<open>
  \<open>repeat_update n f\<close> runs the update \<open>f\<close> \<open>n\<close> times in a row; it is undefined as
  soon as one run is.
\<close>

fun repeat_update :: "nat \<Rightarrow> (sketch \<Rightarrow> sketch option) \<Rightarrow> sketch \<Rightarrow> sketch option" where
  "repeat_update 0 f w = Some w"
| "repeat_update (Suc n) f w = (case repeat_update n f w of None \<Rightarrow> None | Some w' \<Rightarrow> f w')"

text \<open>
  \<open>run_updates\<close> runs a sequence of \<open>Update\<close> calls, each on the strip and with the two
  clock readings given, as the passes of \<open>loop()\<close> do while no command arrives.
\<close>

fun run_updates :: "int_width \<Rightarrow> (strip_id \<times> u32 \<times> u32) list \<Rightarrow> sketch \<Rightarrow> sketch option" where
  "run_updates iw [] w = Some w"
| "run_updates iw ((k, now, now') # us) w =
     (case Update iw k now now' w of None \<Rightarrow> None | Some w' \<Rightarrow> run_updates iw us w')"

text \<open>
  \<open>ticks_every k d t n\<close>: \<open>n\<close> calls of \<open>Update\<close> on strip \<open>k\<close>, at times \<open>t + d\<close>,
  \<open>t + 2d\<close>, ... \<open>cursor k w\<close>: where strip \<open>k\<close> stands in its pattern, and how often
  the callback has run. \<open>pulse_next\<close>: what one shown frame does to the cursor of a
  pulsing strip with the callback installed (lemma \<open>pulse_tick\<close> below).
\<close>

fun ticks_every :: "strip_id \<Rightarrow> u32 \<Rightarrow> u32 \<Rightarrow> nat \<Rightarrow> (strip_id \<times> u32 \<times> u32) list" where
  "ticks_every k d t 0 = []"
| "ticks_every k d t (Suc n) = (k, t + d, t + d) # ticks_every k d (t + d) n"

definition cursor :: "strip_id \<Rightarrow> sketch \<Rightarrow> direction \<times> u16 \<times> nat" where
  "cursor k w = (Direction (strip_of k w), Index (strip_of k w), completions w)"

fun pulse_next :: "u16 \<Rightarrow> direction \<times> u16 \<times> nat \<Rightarrow> direction \<times> u16 \<times> nat" where
  "pulse_next t (d, i, c) =
     (if d = FORWARD then (if i + 1 < t then (FORWARD, i + 1, c) else (REVERSE, t - 1, c + 1))
      else (if i = 1 then (FORWARD, 0, c + 1) else (REVERSE, i - 1, c)))"





subsection \<open>Example states\<close>

text \<open>
  \<open>pulsing1\<close>: the sketch after power-on and command \<open>'1'\<close> (strip 1 pulses from black
  to amber in 50 steps, every 10 ms). \<open>fade300\<close>: strip 1 started on a fade from red to
  black in 300 steps.
\<close>

definition pulsing1 :: sketch where
  "pulsing1 = read_from_serial (Some 49) power_on"

definition fade300 :: sketch where
  "fade300 =
     put_strip S1 (Fade (Color 255 0 0) (Color 0 0 0) 300 10 FORWARD (Strip1 power_on)) power_on"



section \<open>Basic facts\<close>

subsection \<open>Access to the strips\<close>

lemma strip_of_put_same [simp]: "strip_of k (put_strip k s w) = s"
  by (cases k) simp_all

lemma strip_of_put_other: "j \<noteq> k \<Longrightarrow> strip_of j (put_strip k s w) = strip_of j w"
  by (cases k; cases j) simp_all

lemma strip_of_put: "strip_of j (put_strip k s w) = (if j = k then s else strip_of j w)"
  by (simp add: strip_of_put_other)

lemma put_strip_put [simp]: "put_strip k s (put_strip k s' w) = put_strip k s w"
  by (cases k) simp_all

lemma put_strip_same [simp]: "put_strip k (strip_of k w) w = w"
  by (cases k) simp_all

lemma completions_put [simp]: "completions (put_strip k s w) = completions w"
  by (cases k) simp_all

subsection \<open>Colours\<close>

lemma xFF_mask: "(0xFF :: u32) = mask 8"
  by (simp add: mask_eq_decr_exp)

lemma Red_Color: "Red (Color r g b) = r"
  unfolding Red_def Color_def xFF_mask
  by (rule bit_word_eqI) (auto simp add: bit_simps dest: bit_imp_le_length)

lemma Green_Color: "Green (Color r g b) = g"
  unfolding Green_def Color_def xFF_mask
  by (rule bit_word_eqI) (auto simp add: bit_simps dest: bit_imp_le_length)

lemma Blue_Color: "Blue (Color r g b) = b"
  unfolding Blue_def Color_def xFF_mask
  by (rule bit_word_eqI) (auto simp add: bit_simps dest: bit_imp_le_length)

subsection \<open>Writing the buffer\<close>

lemma paints_iff:
  "paints s s' \<longleftrightarrow> (\<exists>P. s' = s\<lparr>pixels := P\<rparr> \<and> length P = length (pixels s))"
proof
  assume "paints s s'"
  then have "s' = s\<lparr>pixels := pixels s'\<rparr> \<and> length (pixels s') = length (pixels s)"
    unfolding paints_def .
  then show "\<exists>P. s' = s\<lparr>pixels := P\<rparr> \<and> length P = length (pixels s)" ..
next
  assume "\<exists>P. s' = s\<lparr>pixels := P\<rparr> \<and> length P = length (pixels s)"
  then obtain P where "s' = s\<lparr>pixels := P\<rparr>" "length P = length (pixels s)" by blast
  then show "paints s s'" by (simp add: paints_def)
qed

lemma paints_refl: "paints s s"
  by (simp add: paints_def)

lemma paints_trans: "paints s s' \<Longrightarrow> paints s' s'' \<Longrightarrow> paints s s''"
  by (auto simp: paints_iff)

lemma paints_set: "paints s (setPixelColor n c s)"
  by (simp add: paints_def setPixelColor_def)

lemma paints_fold:
  "(\<And>i s. paints s (f i s)) \<Longrightarrow> paints s (fold f is s)"
proof (induction "is" arbitrary: s)
  case Nil
  show ?case by (simp add: paints_refl)
next
  case (Cons a "is")
  have "paints s (f a s)" by (rule Cons.prems)
  moreover have "paints (f a s) (fold f is (f a s))" by (rule Cons.IH) (rule Cons.prems)
  ultimately show ?case by (auto intro: paints_trans)
qed

lemma update_replicate_drop:
  "m < length xs \<Longrightarrow> (replicate m c @ drop m xs)[m := c] = replicate (Suc m) c @ drop (Suc m) xs"
proof -
  assume m: "m < length xs"
  then have d: "drop m xs = xs ! m # drop (Suc m) xs"
    by (rule Cons_nth_drop_Suc [symmetric])
  have "(replicate m c @ drop m xs)[m := c] = replicate m c @ (drop m xs)[0 := c]"
    by (simp add: list_update_append)
  also have "\<dots> = replicate m c @ c # drop (Suc m) xs"
    by (simp only: d list_update_code)
  also have "\<dots> = replicate (Suc m) c @ drop (Suc m) xs"
    by (simp add: replicate_append_same)
  finally show ?thesis .
qed

lemma fold_set_upt:
  "m \<le> length (pixels s) \<Longrightarrow>
   fold (\<lambda>i. setPixelColor i c) [0..<m] s = s\<lparr>pixels := replicate m c @ drop m (pixels s)\<rparr>"
proof (induction m)
  case 0
  then show ?case by simp
next
  case (Suc m)
  then show ?case
    by (simp add: setPixelColor_def numPixels_def update_replicate_drop)
qed

lemma ColorSet_eq:
  "ColorSet c s = s\<lparr>pixels := replicate (numPixels s) c,
                     shown := shown s @ [replicate (numPixels s) c]\<rparr>"
  by (simp add: ColorSet_def fold_set_upt numPixels_def showPixels_def)

subsection \<open>The callback and Increment\<close>

lemma strip_of_StripComplete:
  "strip_of j (StripComplete w) =
     (if ActivePattern (strip_of j w) = PULSE then Reverse (strip_of j w) else strip_of j w)"
  by (cases j) (simp_all add: StripComplete_def Let_def)

lemma completions_StripComplete: "completions (StripComplete w) = completions w + 1"
  by (simp add: StripComplete_def Let_def)

lemma still_Reverse: "still (Reverse s) = still s"
  by (simp add: still_def Reverse_def)

lemma still_StripComplete: "still (strip_of j (StripComplete w)) = still (strip_of j w)"
  by (simp add: strip_of_StripComplete still_Reverse)

lemma pixels_still [simp]: "pixels (still s) = pixels s"
  by (simp add: still_def)

lemma shown_still [simp]: "shown (still s) = shown s"
  by (simp add: still_def)

lemma u16_minus_one: "(- 1 :: u16) = 65535"
  by simp

text \<open>
  \<open>Increment\<close> in closed form. After \<open>--Index\<close> the test \<open>Index <= 0\<close> succeeds exactly
  when \<open>Index\<close> was 1.
\<close>

lemma Increment_eq:
  "Increment k w =
     (let s = strip_of k w in
      if Direction s = FORWARD then
        if Index s + 1 < TotalSteps s then Some (put_strip k (s\<lparr>Index := Index s + 1\<rparr>) w)
        else Some (complete (OnComplete s) (put_strip k (s\<lparr>Index := 0\<rparr>) w))
      else
        if Index s = 1
        then Some (complete (OnComplete s) (put_strip k (s\<lparr>Index := TotalSteps s - 1\<rparr>) w))
        else Some (put_strip k (s\<lparr>Index := Index s - 1\<rparr>) w))"
  by (cases "OnComplete (strip_of k w)")
     (auto simp add: Increment_def Let_def complete_def not_less)

lemma Increment_total: "\<exists>w'. Increment k w = Some w'"
  by (simp add: Increment_eq Let_def)

lemma still_complete: "still (strip_of j (complete cb w)) = still (strip_of j w)"
  by (cases cb) (simp_all add: complete_def still_StripComplete)

lemma still_put_Index:
  "still (strip_of j (put_strip k ((strip_of k w)\<lparr>Index := i\<rparr>) w)) = still (strip_of j w)"
  by (simp add: strip_of_put still_def)

lemma Increment_still:
  "Increment k w = Some w' \<Longrightarrow> still (strip_of j w') = still (strip_of j w)"
  by (auto simp add: Increment_eq Let_def still_complete still_put_Index split: if_splits)

lemma Increment_pixels:
  "Increment k w = Some w' \<Longrightarrow> pixels (strip_of j w') = pixels (strip_of j w)"
  by (metis Increment_still pixels_still)

lemma Increment_shown:
  "Increment k w = Some w' \<Longrightarrow> shown (strip_of j w') = shown (strip_of j w)"
  by (metis Increment_still shown_still)

lemma Increment_buffers:
  "map_option (\<lambda>w'. (pixels (strip_of j w'), shown (strip_of j w'))) (Increment k w)
     = Some (pixels (strip_of j w), shown (strip_of j w))"
  using Increment_total [of k w] by (auto simp: Increment_pixels Increment_shown)

subsection \<open>The frame of Fade\<close>

lemma FadeUpdate_buffers:
  "map_option (\<lambda>w'. (pixels (strip_of k w'), shown (strip_of k w'))) (FadeUpdate iw k w) =
     (let s = strip_of k w in
      case fade_channel iw (Red (Color1 s)) (Red (Color2 s)) (TotalSteps s) (Index s) of
        None \<Rightarrow> None
      | Some red \<Rightarrow>
      case fade_channel iw (Green (Color1 s)) (Green (Color2 s)) (TotalSteps s) (Index s) of
        None \<Rightarrow> None
      | Some green \<Rightarrow>
      case fade_channel iw (Blue (Color1 s)) (Blue (Color2 s)) (TotalSteps s) (Index s) of
        None \<Rightarrow> None
      | Some blue \<Rightarrow>
        Some (replicate (numPixels s) (Color red green blue),
              shown s @ [replicate (numPixels s) (Color red green blue),
                         replicate (numPixels s) (Color red green blue)]))"
  by (simp add: FadeUpdate_def Let_def Increment_buffers ColorSet_eq showPixels_def
           split: option.splits)

subsection \<open>Increment, step by step\<close>

lemma Increment_step:
  "Increment k w =
     Some ((if at_boundary (strip_of k w) then complete (OnComplete (strip_of k w)) else id)
             (put_strip k ((strip_of k w)\<lparr>Index := next_Index (strip_of k w)\<rparr>) w))"
  by (simp add: Increment_eq Let_def at_boundary_def next_Index_def)

lemma renders_show: "paints s s1 \<Longrightarrow> renders s (showPixels s1)"
  by (auto simp: paints_iff renders_def showPixels_def)

lemma renders_show2: "paints s s1 \<Longrightarrow> renders s (showPixels (showPixels s1))"
  by (auto simp: paints_iff renders_def showPixels_def)

lemma paints_rainbow_loop: "rainbow_loop iw is s = Some s' \<Longrightarrow> paints s s'"
proof (induction "is" arbitrary: s)
  case Nil
  then show ?case by (simp add: paints_refl)
next
  case (Cons i "is")
  then show ?case
    by (auto split: option.splits intro: paints_trans [OF paints_set])
qed

lemma paints_if: "paints s (if b then setPixelColor i c s else setPixelColor i d s)"
  by (simp add: paints_set)

lemma paints_if2:
  "paints s (if b then setPixelColor i c s else if b' then setPixelColor i d s
             else setPixelColor i e s)"
  by (simp add: paints_set)

lemma shapeI:
  "renders (strip_of k w) s' \<Longrightarrow> Increment k (put_strip k s' w) = Some w' \<Longrightarrow>
   \<exists>s'. renders (strip_of k w) s' \<and> Increment k (put_strip k s' w) = Some w'"
  by blast

lemma ColorWipeUpdate_shape:
  "ColorWipeUpdate k w = Some w' \<Longrightarrow>
   \<exists>s'. renders (strip_of k w) s' \<and> Increment k (put_strip k s' w) = Some w'"
  unfolding ColorWipeUpdate_def Let_def
  by (erule shapeI [rotated]) (intro renders_show paints_set)

lemma TheaterChaseUpdate_shape:
  "TheaterChaseUpdate iw k w = Some w' \<Longrightarrow>
   \<exists>s'. renders (strip_of k w) s' \<and> Increment k (put_strip k s' w) = Some w'"
  unfolding TheaterChaseUpdate_def Let_def
  by (erule shapeI [rotated]) (intro renders_show paints_fold paints_if)

lemma ScannerUpdate_shape:
  "ScannerUpdate iw k w = Some w' \<Longrightarrow>
   \<exists>s'. renders (strip_of k w) s' \<and> Increment k (put_strip k s' w) = Some w'"
  unfolding ScannerUpdate_def Let_def
  by (erule shapeI [rotated]) (intro renders_show paints_fold paints_if2)

lemma paints_ColorSet_inner: "paints s (fold (\<lambda>i. setPixelColor i c) is s)"
  by (rule paints_fold) (rule paints_set)

lemma FadeUpdate_shape:
  "FadeUpdate iw k w = Some w' \<Longrightarrow>
   \<exists>s'. renders (strip_of k w) s' \<and> Increment k (put_strip k s' w) = Some w'"
  unfolding FadeUpdate_def Let_def ColorSet_def
  by (auto split: option.splits intro!: exI renders_show2 paints_ColorSet_inner)

lemma RainbowCycleUpdate_shape:
  "RainbowCycleUpdate iw k w = Some w' \<Longrightarrow>
   \<exists>s'. renders (strip_of k w) s' \<and> Increment k (put_strip k s' w) = Some w'"
  unfolding RainbowCycleUpdate_def Let_def
  by (auto split: option.splits intro!: exI renders_show paints_rainbow_loop)

lemma rainbow_loop_Int32: "\<exists>s'. rainbow_loop Int32 is s = Some s'"
  by (induction "is" arbitrary: s) (simp_all add: rainbow_hue_def)

lemma rainbow_loop_Int16:
  "list_all (\<lambda>i. i < 128) is \<Longrightarrow> \<exists>s'. rainbow_loop Int16 is s = Some s'"
  by (induction "is" arbitrary: s) (simp_all add: rainbow_hue_def)

lemma rainbow_loop_total:
  assumes "iw = Int32 \<or> n \<le> 128"
  shows "\<exists>s'. rainbow_loop iw [0..<n] s = Some s'"
proof (cases iw)
  case Int32
  then show ?thesis by (simp add: rainbow_loop_Int32)
next
  case Int16
  with assms have "list_all (\<lambda>i. i < 128) [0..<n]" by (simp add: list_all_iff)
  with Int16 show ?thesis by (simp add: rainbow_loop_Int16)
qed

lemma RainbowCycleUpdate_total:
  "iw = Int32 \<or> numPixels (strip_of k w) \<le> 128 \<Longrightarrow> \<exists>w'. RainbowCycleUpdate iw k w = Some w'"
  using rainbow_loop_total [of iw "numPixels (strip_of k w)" "strip_of k w"]
  by (auto simp: RainbowCycleUpdate_def Let_def Increment_total)

lemma FadeUpdate_total:
  "TotalSteps (strip_of k w) \<noteq> 0 \<Longrightarrow> \<exists>w'. FadeUpdate iw k w = Some w'"
  by (simp add: FadeUpdate_def Let_def fade_channel_def Increment_total)

lemma Update_total:
  assumes "update_defined iw (strip_of k w)"
  shows "\<exists>w'. Update iw k now now' w = Some w'"
proof (cases "ActivePattern (strip_of k w)")
  case RAINBOW_CYCLE
  with assms show ?thesis
    by (simp add: Update_def Let_def update_defined_def RainbowCycleUpdate_total numPixels_def)
next
  case FADE
  with assms show ?thesis
    by (simp add: Update_def Let_def update_defined_def FadeUpdate_total)
next
  case PULSE
  with assms show ?thesis
    by (simp add: Update_def Let_def update_defined_def PulseUpdate_def FadeUpdate_total)
qed (simp_all add: Update_def Let_def Increment_total TheaterChaseUpdate_def ColorWipeUpdate_def
       ScannerUpdate_def)

lemma Update_not_elapsed:
  "now - lastUpdate (strip_of k w) \<le> Interval (strip_of k w) \<Longrightarrow> Update iw k now now' w = Some w"
  by (simp add: Update_def leD)

lemma Update_NONE:
  "Interval (strip_of k w) < now - lastUpdate (strip_of k w) \<Longrightarrow>
   ActivePattern (strip_of k w) = NONE \<Longrightarrow>
   Update iw k now now' w = Some (put_strip k ((strip_of k w)\<lparr>lastUpdate := now'\<rparr>) w)"
  by (simp add: Update_def Let_def)

lemma Update_shape:
  assumes "Interval (strip_of k w) < now - lastUpdate (strip_of k w)"
      and "ActivePattern (strip_of k w) \<noteq> NONE"
      and "Update iw k now now' w = Some w'"
  shows "\<exists>s'. renders ((strip_of k w)\<lparr>lastUpdate := now'\<rparr>) s' \<and>
              Increment k (put_strip k s' w) = Some w'"
proof -
  let ?w = "put_strip k ((strip_of k w)\<lparr>lastUpdate := now'\<rparr>) w"
  have "\<exists>s'. renders (strip_of k ?w) s' \<and> Increment k (put_strip k s' ?w) = Some w'"
  proof (cases "ActivePattern (strip_of k w)")
    case NONE
    with assms show ?thesis by simp
  next
    case RAINBOW_CYCLE
    with assms have "RainbowCycleUpdate iw k ?w = Some w'" by (simp add: Update_def Let_def)
    then show ?thesis by (rule RainbowCycleUpdate_shape)
  next
    case THEATER_CHASE
    with assms have "TheaterChaseUpdate iw k ?w = Some w'" by (simp add: Update_def Let_def)
    then show ?thesis by (rule TheaterChaseUpdate_shape)
  next
    case COLOR_WIPE
    with assms have "ColorWipeUpdate k ?w = Some w'" by (simp add: Update_def Let_def)
    then show ?thesis by (rule ColorWipeUpdate_shape)
  next
    case SCANNER
    with assms have "ScannerUpdate iw k ?w = Some w'" by (simp add: Update_def Let_def)
    then show ?thesis by (rule ScannerUpdate_shape)
  next
    case FADE
    with assms have "FadeUpdate iw k ?w = Some w'" by (simp add: Update_def Let_def)
    then show ?thesis by (rule FadeUpdate_shape)
  next
    case PULSE
    with assms have "FadeUpdate iw k ?w = Some w'"
      by (simp add: Update_def Let_def PulseUpdate_def)
    then show ?thesis by (rule FadeUpdate_shape)
  qed
  then show ?thesis by simp
qed

lemma lastUpdate_still: "lastUpdate (still s) = lastUpdate s"
  by (simp add: still_def)

lemma renders_iff:
  "renders s s' \<longleftrightarrow>
     (\<exists>P S. s' = s\<lparr>pixels := P, shown := S\<rparr> \<and> length P = length (pixels s) \<and>
            (S = shown s @ [P] \<or> S = shown s @ [P, P]))"
proof
  assume "renders s s'"
  then have "s' = s\<lparr>pixels := pixels s', shown := shown s'\<rparr> \<and>
     length (pixels s') = length (pixels s) \<and>
     (shown s' = shown s @ [pixels s'] \<or> shown s' = shown s @ [pixels s', pixels s'])"
    unfolding renders_def .
  then show "\<exists>P S. s' = s\<lparr>pixels := P, shown := S\<rparr> \<and> length P = length (pixels s) \<and>
            (S = shown s @ [P] \<or> S = shown s @ [P, P])"
    by blast
next
  assume "\<exists>P S. s' = s\<lparr>pixels := P, shown := S\<rparr> \<and> length P = length (pixels s) \<and>
            (S = shown s @ [P] \<or> S = shown s @ [P, P])"
  then obtain P S where "s' = s\<lparr>pixels := P, shown := S\<rparr>" "length P = length (pixels s)"
    "S = shown s @ [P] \<or> S = shown s @ [P, P]" by blast
  then show "renders s s'" by (simp add: renders_def)
qed

lemma renders_fields:
  assumes "renders s s'"
  shows "Index s' = Index s" "Direction s' = Direction s" "TotalSteps s' = TotalSteps s"
        "OnComplete s' = OnComplete s" "lastUpdate s' = lastUpdate s"
        "ActivePattern s' = ActivePattern s" "Interval s' = Interval s"
        "Color1 s' = Color1 s" "Color2 s' = Color2 s"
  using assms by (auto simp: renders_iff)











lemma uint_ucast_8_16: "uint (ucast (c :: u8) :: u16) = uint c"
  by (simp add: uint_up_ucast is_up)

lemma uint_u8_bound: "uint (c :: u8) \<le> 255"
  using uint_bounded [of c] by simp

lemma lerp_bound:
  assumes "0 \<le> c1" "c1 \<le> 255" "0 \<le> c2" "c2 \<le> 255" "0 \<le> i" "i < t"
  shows "0 \<le> lerp c1 c2 t i \<and> lerp c1 c2 t i \<le> 255"
proof -
  have t: "0 < t" using assms by simp
  have n: "0 \<le> c1 * (t - i) + c2 * i" using assms by simp
  have "c1 * (t - i) \<le> 255 * (t - i)" using assms by (intro mult_right_mono) simp_all
  moreover have "c2 * i \<le> 255 * i" using assms by (intro mult_right_mono) simp_all
  ultimately have "c1 * (t - i) + c2 * i \<le> 255 * t" by (simp add: algebra_simps)
  then have "(c1 * (t - i) + c2 * i) div t \<le> 255 * t div t" by (rule zdiv_mono1) (rule t)
  then have "(c1 * (t - i) + c2 * i) div t \<le> 255" using t by simp
  moreover have "0 \<le> (c1 * (t - i) + c2 * i) div t" using n t by (simp add: pos_imp_zdiv_nonneg_iff)
  ultimately show ?thesis by (simp add: lerp_def)
qed

lemma sdiv_nonneg: "0 \<le> (a::int) \<Longrightarrow> 0 < b \<Longrightarrow> a sdiv b = a div b"
  by (simp add: signed_divide_int_def sgn_if)

lemma fade_channel_Int32:
  assumes "idx < tsteps"
  shows "\<exists>c. fade_channel Int32 c1 c2 tsteps idx = Some c \<and>
             uint c = lerp (uint c1) (uint c2) (uint tsteps) (uint idx)"
proof -
  have lt: "uint idx < uint tsteps" using assms by (simp add: word_less_def)
  then have nz: "tsteps \<noteq> 0" by auto
  have b: "0 \<le> lerp (uint c1) (uint c2) (uint tsteps) (uint idx) \<and>
           lerp (uint c1) (uint c2) (uint tsteps) (uint idx) \<le> 255"
    using lt by (intro lerp_bound uint_u8_bound) simp_all
  have n: "0 \<le> uint c1 * (uint tsteps - uint idx) + uint c2 * uint idx" using lt by simp
  have "(uint c1 * (uint tsteps - uint idx) + uint c2 * uint idx) sdiv uint tsteps
        = lerp (uint c1) (uint c2) (uint tsteps) (uint idx)"
  proof -
    have "0 < uint tsteps" using lt uint_ge_0 [of idx] by linarith
    then show ?thesis using sdiv_nonneg [OF n, of "uint tsteps"] by (simp add: lerp_def)
  qed
  moreover have "uint (word_of_int (lerp (uint c1) (uint c2) (uint tsteps) (uint idx)) :: u8)
        = lerp (uint c1) (uint c2) (uint tsteps) (uint idx)"
    using b by (simp add: uint_word_of_int)
  ultimately show ?thesis using nz by (simp add: fade_channel_def)
qed

lemma fade_channel_Int16:
  assumes "idx < tsteps"
      and "uint c1 * (uint tsteps - uint idx) + uint c2 * uint idx < 65536"
  shows "\<exists>c. fade_channel Int16 c1 c2 tsteps idx = Some c \<and>
             uint c = lerp (uint c1) (uint c2) (uint tsteps) (uint idx)"
proof -
  have lt: "uint idx < uint tsteps" using assms by (simp add: word_less_def)
  then have nz: "tsteps \<noteq> 0" by auto
  have b: "0 \<le> lerp (uint c1) (uint c2) (uint tsteps) (uint idx) \<and>
           lerp (uint c1) (uint c2) (uint tsteps) (uint idx) \<le> 255"
    using lt by (intro lerp_bound uint_u8_bound) simp_all
  have n: "0 \<le> uint c1 * (uint tsteps - uint idx) + uint c2 * uint idx" using lt by simp
  have sub: "uint (tsteps - idx) = uint tsteps - uint idx"
    using assms(1) by (simp add: uint_sub_if' word_less_def word_le_def)
  have "uint ((ucast c1 * (tsteps - idx)) + (ucast c2 * idx) :: u16)
      = (uint c1 * (uint tsteps - uint idx) + uint c2 * uint idx) mod 65536"
    by (simp add: uint_word_ariths uint_ucast_8_16 sub mod_simps)
  also have "\<dots> = uint c1 * (uint tsteps - uint idx) + uint c2 * uint idx"
    using n assms(2) by simp
  finally have num: "uint ((ucast c1 * (tsteps - idx)) + (ucast c2 * idx) :: u16)
      = uint c1 * (uint tsteps - uint idx) + uint c2 * uint idx" .
  have q: "uint (((ucast c1 * (tsteps - idx)) + (ucast c2 * idx)) div tsteps)
      = lerp (uint c1) (uint c2) (uint tsteps) (uint idx)"
    by (simp add: uint_div num lerp_def)
  have "uint (ucast (((ucast c1 * (tsteps - idx)) + (ucast c2 * idx)) div tsteps) :: u8)
      = lerp (uint c1) (uint c2) (uint tsteps) (uint idx) mod 256"
    by (simp only: q [symmetric]) (simp add: unsigned_ucast_eq take_bit_eq_mod)
  also have "\<dots> = lerp (uint c1) (uint c2) (uint tsteps) (uint idx)" using b by simp
  finally show ?thesis using nz by (simp add: fade_channel_def)
qed

lemma fade_channel_lerp:
  assumes "idx < tsteps"
      and "fits iw (uint c1 * (uint tsteps - uint idx) + uint c2 * uint idx)"
  shows "\<exists>c. fade_channel iw c1 c2 tsteps idx = Some c \<and>
             uint c = lerp (uint c1) (uint c2) (uint tsteps) (uint idx)"
proof (cases iw)
  case Int16
  with assms show ?thesis by (simp add: fits_def fade_channel_Int16)
next
  case Int32
  with assms show ?thesis by (simp add: fade_channel_Int32)
qed

lemma FadeUpdate_pixels:
  assumes "fade_channel iw (Red (Color1 (strip_of k w))) (Red (Color2 (strip_of k w)))
             (TotalSteps (strip_of k w)) (Index (strip_of k w)) = Some r"
      and "fade_channel iw (Green (Color1 (strip_of k w))) (Green (Color2 (strip_of k w)))
             (TotalSteps (strip_of k w)) (Index (strip_of k w)) = Some g"
      and "fade_channel iw (Blue (Color1 (strip_of k w))) (Blue (Color2 (strip_of k w)))
             (TotalSteps (strip_of k w)) (Index (strip_of k w)) = Some b"
  shows "\<exists>w'. FadeUpdate iw k w = Some w' \<and>
              pixels (strip_of k w') = replicate (numPixels (strip_of k w)) (Color r g b)"
proof -
  let ?s' = "showPixels (ColorSet (Color r g b) (strip_of k w))"
  have f: "FadeUpdate iw k w = Increment k (put_strip k ?s' w)"
    using assms by (simp add: FadeUpdate_def Let_def)
  obtain w' where w': "Increment k (put_strip k ?s' w) = Some w'"
    using Increment_total by blast
  have "pixels (strip_of k w') = pixels ?s'"
    using Increment_pixels [OF w', of k] by simp
  then have "pixels (strip_of k w') = replicate (numPixels (strip_of k w)) (Color r g b)"
    by (simp add: ColorSet_eq showPixels_def)
  with f w' show ?thesis by simp
qed


subsection \<open>The example states\<close>

lemma pulsing1_Strip1:
  "ActivePattern (Strip1 pulsing1) = PULSE" "Direction (Strip1 pulsing1) = FORWARD"
  "Interval (Strip1 pulsing1) = 10" "lastUpdate (Strip1 pulsing1) = 0"
  "Color1 (Strip1 pulsing1) = Color 0 0 0" "Color2 (Strip1 pulsing1) = Color 127 127 0"
  "TotalSteps (Strip1 pulsing1) = 50" "Index (Strip1 pulsing1) = 0"
  "OnComplete (Strip1 pulsing1) = StripCompletePtr" "numPixels (Strip1 pulsing1) = 300"
  by (simp_all add: pulsing1_def read_from_serial_def power_on_def Pulse_def
        new_NeoPatterns_def numPixels_def)


lemma fade300_Strip1:
  "Color1 (Strip1 fade300) = Color 255 0 0" "Color2 (Strip1 fade300) = Color 0 0 0"
  "TotalSteps (Strip1 fade300) = 300" "Index (Strip1 fade300) = 0"
  "numPixels (Strip1 fade300) = 300"
  by (simp_all add: fade300_def Fade_def power_on_def new_NeoPatterns_def numPixels_def)

subsection \<open>ColorWipe, frame by frame\<close>

lemma u16_unat_of_nat: "a < 65536 \<Longrightarrow> unat (of_nat a :: u16) = a"
  by (simp add: unat_of_nat)

lemma u16_succ_less: "Suc j < n \<Longrightarrow> n < 65536 \<Longrightarrow> (of_nat j + 1 :: u16) < of_nat n"
proof -
  assume a: "Suc j < n" "n < 65536"
  have "(of_nat j + 1 :: u16) = of_nat (Suc j)" by simp
  moreover have "unat (of_nat (Suc j) :: u16) = Suc j" using a by (intro u16_unat_of_nat) simp
  moreover have "unat (of_nat n :: u16) = n" using a by (intro u16_unat_of_nat) simp
  ultimately show ?thesis using a by (simp only: word_less_nat_alt)
qed

lemma u16_succ_not_less: "Suc j = n \<Longrightarrow> \<not> (of_nat j + 1 :: u16) < of_nat n"
proof -
  assume "Suc j = n"
  then have "(of_nat j + 1 :: u16) = of_nat n" by auto
  then show ?thesis by (simp only: less_irrefl not_False_eq_True)
qed

lemma ColorWipeUpdate_step:
  assumes "Direction (strip_of k w) = FORWARD"
      and "Index (strip_of k w) = of_nat j" "TotalSteps (strip_of k w) = of_nat n"
      and "numPixels (strip_of k w) = n" "n < 65536" "Suc j < n"
  shows "ColorWipeUpdate k w =
           Some (put_strip k ((strip_of k w)
              \<lparr>pixels := (pixels (strip_of k w))[j := Color1 (strip_of k w)],
               shown := shown (strip_of k w) @ [(pixels (strip_of k w))[j := Color1 (strip_of k w)]],
               Index := of_nat j + 1\<rparr>) w)"
proof -
  have j: "unat (of_nat j :: u16) = j" using assms by (simp add: u16_unat_of_nat)
  have lt: "(of_nat j + 1 :: u16) < of_nat n"
    using assms by (intro u16_succ_less)
  show ?thesis
    using assms lt
    by (simp add: ColorWipeUpdate_def Let_def setPixelColor_def showPixels_def j
          Increment_eq)
qed

lemma ColorWipeUpdate_last:
  assumes "Direction (strip_of k w) = FORWARD" "ActivePattern (strip_of k w) = COLOR_WIPE"
      and "Index (strip_of k w) = of_nat j" "TotalSteps (strip_of k w) = of_nat n"
      and "numPixels (strip_of k w) = n" "n < 65536" "Suc j = n"
  shows "\<exists>w'. ColorWipeUpdate k w = Some w' \<and> strip_of k w' = (strip_of k w)
              \<lparr>pixels := (pixels (strip_of k w))[j := Color1 (strip_of k w)],
               shown := shown (strip_of k w) @ [(pixels (strip_of k w))[j := Color1 (strip_of k w)]],
               Index := 0\<rparr>"
proof -
  have j: "unat (of_nat j :: u16) = j" using assms by (simp add: u16_unat_of_nat)
  have lt: "\<not> (of_nat j + 1 :: u16) < of_nat n"
    using assms by (intro u16_succ_not_less)
  show ?thesis
    using assms lt
    by (cases "OnComplete (strip_of k w)")
       (simp_all add: ColorWipeUpdate_def Let_def setPixelColor_def showPixels_def j
          Increment_eq complete_def strip_of_StripComplete)
qed

lemma wipe_prefix:
  assumes n: "numPixels (strip_of k w) = n" "n < 65536"
  shows "j < n \<Longrightarrow>
     \<exists>wj. repeat_update j (ColorWipeUpdate k)
             (put_strip k (ColorWipe color interval FORWARD (strip_of k w)) w) = Some wj \<and>
          Direction (strip_of k wj) = FORWARD \<and> ActivePattern (strip_of k wj) = COLOR_WIPE \<and>
          Color1 (strip_of k wj) = color \<and> TotalSteps (strip_of k wj) = of_nat n \<and>
          Index (strip_of k wj) = of_nat j \<and>
          pixels (strip_of k wj) = replicate j color @ drop j (pixels (strip_of k w)) \<and>
          shown (strip_of k wj) = shown (strip_of k w) @
             map (\<lambda>i. replicate (Suc i) color @ drop (Suc i) (pixels (strip_of k w))) [0..<j]"
proof (induction j)
  case 0
  show ?case using n by (simp add: ColorWipe_def)
next
  case (Suc j)
  let ?w0 = "put_strip k (ColorWipe color interval FORWARD (strip_of k w)) w"
  let ?old = "pixels (strip_of k w)"
  from Suc obtain wj where wj: "repeat_update j (ColorWipeUpdate k) ?w0 = Some wj"
      "Direction (strip_of k wj) = FORWARD" "ActivePattern (strip_of k wj) = COLOR_WIPE"
      "Color1 (strip_of k wj) = color" "TotalSteps (strip_of k wj) = of_nat n"
      "Index (strip_of k wj) = of_nat j"
      "pixels (strip_of k wj) = replicate j color @ drop j ?old"
      "shown (strip_of k wj) = shown (strip_of k w) @
             map (\<lambda>i. replicate (Suc i) color @ drop (Suc i) ?old) [0..<j]"
    by auto
  have len: "length ?old = n" using n by (simp add: numPixels_def)
  have np: "numPixels (strip_of k wj) = n"
    using wj(7) len Suc.prems by (simp add: numPixels_def)
  have upd: "(pixels (strip_of k wj))[j := color] = replicate (Suc j) color @ drop (Suc j) ?old"
    using Suc.prems len by (simp only: wj(7)) (rule update_replicate_drop, simp)
  have idx: "(of_nat j + 1 :: u16) = of_nat (Suc j)" by simp
  from ColorWipeUpdate_step [OF wj(2) wj(6) wj(5) np n(2) Suc.prems]
  have "repeat_update (Suc j) (ColorWipeUpdate k) ?w0 =
          Some (put_strip k ((strip_of k wj)
              \<lparr>pixels := (pixels (strip_of k wj))[j := color],
               shown := shown (strip_of k wj) @ [(pixels (strip_of k wj))[j := color]],
               Index := of_nat j + 1\<rparr>) wj)"
    by (simp add: wj(1) wj(4))
  then show ?case
    by (simp only: upd idx) (simp add: wj)
qed

subsection \<open>What an update leaves alone\<close>

lemma Update_cases:
  assumes "Update iw k now now' w = Some w'"
  shows "w' = w \<or> w' = put_strip k ((strip_of k w)\<lparr>lastUpdate := now'\<rparr>) w \<or>
         (\<exists>s'. renders ((strip_of k w)\<lparr>lastUpdate := now'\<rparr>) s' \<and>
               Increment k (put_strip k s' w) = Some w')"
proof (cases "now - lastUpdate (strip_of k w) \<le> Interval (strip_of k w)")
  case True
  with assms show ?thesis by (simp add: Update_not_elapsed)
next
  case False
  then have el: "Interval (strip_of k w) < now - lastUpdate (strip_of k w)" by (simp add: not_le)
  show ?thesis
  proof (cases "ActivePattern (strip_of k w) = NONE")
    case True
    with el assms show ?thesis by (simp add: Update_NONE)
  next
    case False
    from Update_shape [OF el False assms] show ?thesis by blast
  qed
qed

lemma still_fields:
  "ActivePattern (still s) = ActivePattern s" "TotalSteps (still s) = TotalSteps s"
  "OnComplete (still s) = OnComplete s" "Interval (still s) = Interval s"
  "Color1 (still s) = Color1 s" "Color2 (still s) = Color2 s"
  "numPixels (still s) = numPixels s"
  by (simp_all add: still_def numPixels_def)

lemma update_defined_still: "update_defined iw (still s) = update_defined iw s"
  by (simp add: update_defined_def still_fields cong: pattern.case_cong)

lemma still_eq_fields:
  assumes "still s' = still s"
  shows "ActivePattern s' = ActivePattern s" "TotalSteps s' = TotalSteps s"
        "OnComplete s' = OnComplete s" "Interval s' = Interval s"
        "Color1 s' = Color1 s" "Color2 s' = Color2 s" "numPixels s' = numPixels s"
        "pixels s' = pixels s" "shown s' = shown s" "lastUpdate s' = lastUpdate s"
        "update_defined iw s' = update_defined iw s"
proof -
  show "ActivePattern s' = ActivePattern s" using still_fields(1) [of s'] still_fields(1) [of s] assms by simp
  show "TotalSteps s' = TotalSteps s" using still_fields(2) [of s'] still_fields(2) [of s] assms by simp
  show "OnComplete s' = OnComplete s" using still_fields(3) [of s'] still_fields(3) [of s] assms by simp
  show "Interval s' = Interval s" using still_fields(4) [of s'] still_fields(4) [of s] assms by simp
  show "Color1 s' = Color1 s" using still_fields(5) [of s'] still_fields(5) [of s] assms by simp
  show "Color2 s' = Color2 s" using still_fields(6) [of s'] still_fields(6) [of s] assms by simp
  show "numPixels s' = numPixels s" using still_fields(7) [of s'] still_fields(7) [of s] assms by simp
  show "pixels s' = pixels s" using pixels_still [of s'] pixels_still [of s] assms by simp
  show "shown s' = shown s" using shown_still [of s'] shown_still [of s] assms by simp
  show "lastUpdate s' = lastUpdate s" using lastUpdate_still [of s'] lastUpdate_still [of s] assms by simp
  show "update_defined iw s' = update_defined iw s"
    using update_defined_still [of iw s'] update_defined_still [of iw s] assms by simp
qed

lemma Update_other:
  assumes "j \<noteq> k" "Update iw k now now' w = Some w'"
  shows "still (strip_of j w') = still (strip_of j w)"
  using Update_cases [OF assms(2)] assms(1)
  by (auto simp: strip_of_put_other dest: Increment_still [where j = j])

lemma Update_self:
  assumes "Update iw k now now' w = Some w'"
  shows "ActivePattern (strip_of k w') = ActivePattern (strip_of k w) \<and>
         TotalSteps (strip_of k w') = TotalSteps (strip_of k w) \<and>
         OnComplete (strip_of k w') = OnComplete (strip_of k w) \<and>
         Interval (strip_of k w') = Interval (strip_of k w) \<and>
         numPixels (strip_of k w') = numPixels (strip_of k w) \<and>
         (ActivePattern (strip_of k w) = NONE \<longrightarrow> pixels (strip_of k w') = pixels (strip_of k w))"
proof -
  from Update_cases [OF assms]
  consider "w' = w" | "w' = put_strip k ((strip_of k w)\<lparr>lastUpdate := now'\<rparr>) w"
    | s' where "renders ((strip_of k w)\<lparr>lastUpdate := now'\<rparr>) s'"
               "Increment k (put_strip k s' w) = Some w'" "ActivePattern (strip_of k w) \<noteq> NONE"
    | s' where "renders ((strip_of k w)\<lparr>lastUpdate := now'\<rparr>) s'"
               "Increment k (put_strip k s' w) = Some w'" "ActivePattern (strip_of k w) = NONE"
    by blast
  then show ?thesis
  proof cases
    case 1
    then show ?thesis by simp
  next
    case 2
    then show ?thesis by (simp add: numPixels_def)
  next
    case 3
    have st: "still (strip_of k w') = still s'" using Increment_still [OF 3(2), of k] by simp
    show ?thesis
      using still_eq_fields [OF st] renders_fields [OF 3(1)] 3(1) 3(3)
      by (simp add: renders_iff numPixels_def) (auto simp: renders_iff)
  next
    case 4
    have "Update iw k now now' w = Some w \<or>
          Update iw k now now' w = Some (put_strip k ((strip_of k w)\<lparr>lastUpdate := now'\<rparr>) w)"
      using 4(3) Update_not_elapsed [of now k w iw now'] Update_NONE [of k w now iw now']
      by (cases "now - lastUpdate (strip_of k w) \<le> Interval (strip_of k w)") (auto simp: not_le)
    with assms show ?thesis by (auto simp: numPixels_def)
  qed
qed

lemma update_defined_NONE: "ActivePattern s = NONE \<Longrightarrow> update_defined iw s"
  by (simp add: update_defined_def)

lemma Update_idle1_step:
  assumes "ActivePattern (Strip1 w) = NONE"
      and "update_defined iw (Strip2 w)" "update_defined iw (Strip3 w)"
  shows "\<exists>w'. Update iw k now now' w = Some w' \<and>
              ActivePattern (Strip1 w') = NONE \<and> pixels (Strip1 w') = pixels (Strip1 w) \<and>
              update_defined iw (Strip2 w') \<and> update_defined iw (Strip3 w')"
proof -
  have d: "update_defined iw (strip_of j w)" for j
    using assms by (cases j) (simp_all add: update_defined_NONE)
  from Update_total [OF d] obtain w' where w': "Update iw k now now' w = Some w'" by blast
  have keep: "ActivePattern (strip_of j w') = ActivePattern (strip_of j w) \<and>
              update_defined iw (strip_of j w') = update_defined iw (strip_of j w) \<and>
              (ActivePattern (strip_of j w) = NONE \<longrightarrow>
                 pixels (strip_of j w') = pixels (strip_of j w))" for j
  proof (cases "j = k")
    case True
    with Update_self [OF w'] show ?thesis
      by (simp add: update_defined_def cong: pattern.case_cong)
  next
    case False
    from still_eq_fields [OF Update_other [OF False w']] show ?thesis by simp
  qed
  from keep [of S1] keep [of S2] keep [of S3] assms w' show ?thesis by simp
qed

lemma run_updates_idle1:
  assumes "ActivePattern (Strip1 w) = NONE"
      and "update_defined iw (Strip2 w)" "update_defined iw (Strip3 w)"
  shows "\<exists>w'. run_updates iw us w = Some w' \<and>
              ActivePattern (Strip1 w') = NONE \<and> pixels (Strip1 w') = pixels (Strip1 w) \<and>
              update_defined iw (Strip2 w') \<and> update_defined iw (Strip3 w')"
  using assms
proof (induction us arbitrary: w)
  case Nil
  then show ?case by simp
next
  case (Cons u us)
  obtain k now now' where u: "u = (k, now, now')" by (cases u) auto
  from Update_idle1_step [OF Cons.prems, of k now now'] obtain w1
    where w1: "Update iw k now now' w = Some w1" "ActivePattern (Strip1 w1) = NONE"
      "pixels (Strip1 w1) = pixels (Strip1 w)"
      "update_defined iw (Strip2 w1)" "update_defined iw (Strip3 w1)" by blast
  from Cons.IH [OF w1(2,4,5)] obtain w' where
    "run_updates iw us w1 = Some w'" "ActivePattern (Strip1 w') = NONE"
    "pixels (Strip1 w') = pixels (Strip1 w1)"
    "update_defined iw (Strip2 w')" "update_defined iw (Strip3 w')" by blast
  with w1 u show ?case by simp
qed

lemma idle_solid_eq:
  "idle_solid c s = s\<lparr>ActivePattern := NONE, pixels := replicate (numPixels s) c,
                       shown := shown s @ [replicate (numPixels s) c]\<rparr>"
  by (simp add: idle_solid_def ColorSet_eq numPixels_def)

lemma loop_as_updates:
  "loop iw (a1, b1) (a2, b2) (a3, b3) inp w =
     map_option (read_from_serial inp)
       (run_updates iw [(S1, a1, b1), (S2, a2, b2), (S3, a3, b3)] w)"
  by (simp add: loop_def split: option.splits)

lemma pulse_tick:
  assumes "ActivePattern (strip_of k w) = PULSE" "OnComplete (strip_of k w) = StripCompletePtr"
      and "TotalSteps (strip_of k w) = t" "t \<noteq> 0"
      and "Interval (strip_of k w) < now - lastUpdate (strip_of k w)"
  shows "\<exists>w'. Update iw k now now' w = Some w' \<and>
              cursor k w' = pulse_next t (cursor k w) \<and>
              ActivePattern (strip_of k w') = PULSE \<and>
              OnComplete (strip_of k w') = StripCompletePtr \<and>
              TotalSteps (strip_of k w') = t \<and>
              Interval (strip_of k w') = Interval (strip_of k w) \<and>
              lastUpdate (strip_of k w') = now'"
  using assms
  by (cases "Direction (strip_of k w)")
     (simp_all add: Update_def Let_def PulseUpdate_def FadeUpdate_def fade_channel_def
        Increment_eq complete_def strip_of_StripComplete completions_StripComplete
        Reverse_def cursor_def ColorSet_eq showPixels_def)

lemma run_pulse:
  assumes "ActivePattern (strip_of k w) = PULSE" "OnComplete (strip_of k w) = StripCompletePtr"
      and "TotalSteps (strip_of k w) = t" "t \<noteq> 0"
      and "Interval (strip_of k w) < d" "lastUpdate (strip_of k w) = t0"
  shows "\<exists>w'. run_updates iw (ticks_every k d t0 n) w = Some w' \<and>
              cursor k w' = (pulse_next t ^^ n) (cursor k w)"
  using assms
proof (induction n arbitrary: w t0)
  case 0
  then show ?case by simp
next
  case (Suc n)
  have el: "Interval (strip_of k w) < (t0 + d) - lastUpdate (strip_of k w)"
    using Suc.prems by simp
  from pulse_tick [OF Suc.prems(1,2,3,4) el, of iw "t0 + d"] obtain w1
    where w1: "Update iw k (t0 + d) (t0 + d) w = Some w1"
      "cursor k w1 = pulse_next t (cursor k w)"
      "ActivePattern (strip_of k w1) = PULSE" "OnComplete (strip_of k w1) = StripCompletePtr"
      "TotalSteps (strip_of k w1) = t" "Interval (strip_of k w1) = Interval (strip_of k w)"
      "lastUpdate (strip_of k w1) = t0 + d" by blast
  have i: "Interval (strip_of k w1) < d" using w1(6) Suc.prems(5) by simp
  from Suc.IH [OF w1(3,4,5) Suc.prems(4) i w1(7)] obtain w'
    where "run_updates iw (ticks_every k d (t0 + d) n) w1 = Some w'"
          "cursor k w' = (pulse_next t ^^ n) (cursor k w1)" by blast
  with w1(1,2) show ?case by (simp add: funpow_swap1)
qed

lemma pulse_50:
  "(pulse_next 50 ^^ 50) (FORWARD, 0, 0) = (REVERSE, 49, 1)"
  "(pulse_next 50 ^^ 99) (FORWARD, 0, 0) = (FORWARD, 0, 2)"
  "(pulse_next 50 ^^ 100) (FORWARD, 0, 0) = (FORWARD, 1, 2)"
  by code_simp+

lemma completions_pulsing1: "completions pulsing1 = 0"
  by (simp add: pulsing1_def read_from_serial_def power_on_def)

lemma pulsing1_others:
  "ActivePattern (Strip2 pulsing1) = NONE" "ActivePattern (Strip3 pulsing1) = NONE"
  by (simp_all add: pulsing1_def read_from_serial_def power_on_def new_NeoPatterns_def)

subsection \<open>Where the update is undefined\<close>



subsection \<open>The frame of each pattern in closed form\<close>






















subsection \<open>The interpolation where the numerators fit\<close>

text \<open>
  For a Fade or Pulse state with \<open>Index < TotalSteps\<close> whose three numerators
  \<open>channel1 * (TotalSteps - Index) + channel2 * Index\<close> fit the unsigned type the board
  computes them in (below \<open>2^16\<close> where \<open>int\<close> has 16 bits; no restriction where it
  has 32), one frame computation sets every cell of the buffer to the single colour whose
  channels are \<open>(channel1 * (TotalSteps - Index) + channel2 * Index) / TotalSteps\<close>.
\<close>

lemma Fade_frame_in_range:
  assumes "Index (strip_of k w) < TotalSteps (strip_of k w)"
      and "channel_fits iw (Color1 (strip_of k w)) (Color2 (strip_of k w))
             (TotalSteps (strip_of k w)) (Index (strip_of k w))"
  shows "\<exists>w' c. FadeUpdate iw k w = Some w' \<and> PulseUpdate iw k w = Some w' \<and>
           pixels (strip_of k w') = replicate (numPixels (strip_of k w)) c \<and>
           uint (Red c) = lerp (uint (Red (Color1 (strip_of k w)))) (uint (Red (Color2 (strip_of k w))))
                            (uint (TotalSteps (strip_of k w))) (uint (Index (strip_of k w))) \<and>
           uint (Green c) = lerp (uint (Green (Color1 (strip_of k w)))) (uint (Green (Color2 (strip_of k w))))
                            (uint (TotalSteps (strip_of k w))) (uint (Index (strip_of k w))) \<and>
           uint (Blue c) = lerp (uint (Blue (Color1 (strip_of k w)))) (uint (Blue (Color2 (strip_of k w))))
                            (uint (TotalSteps (strip_of k w))) (uint (Index (strip_of k w)))"
proof -
  let ?s = "strip_of k w"
  from assms obtain r where r: "fade_channel iw (Red (Color1 ?s)) (Red (Color2 ?s))
             (TotalSteps ?s) (Index ?s) = Some r"
      "uint r = lerp (uint (Red (Color1 ?s))) (uint (Red (Color2 ?s)))
                  (uint (TotalSteps ?s)) (uint (Index ?s))"
    using fade_channel_lerp [of "Index ?s" "TotalSteps ?s" iw "Red (Color1 ?s)" "Red (Color2 ?s)"]
    by (auto simp: channel_fits_def)
  from assms obtain g where g: "fade_channel iw (Green (Color1 ?s)) (Green (Color2 ?s))
             (TotalSteps ?s) (Index ?s) = Some g"
      "uint g = lerp (uint (Green (Color1 ?s))) (uint (Green (Color2 ?s)))
                  (uint (TotalSteps ?s)) (uint (Index ?s))"
    using fade_channel_lerp [of "Index ?s" "TotalSteps ?s" iw "Green (Color1 ?s)" "Green (Color2 ?s)"]
    by (auto simp: channel_fits_def)
  from assms obtain b where b: "fade_channel iw (Blue (Color1 ?s)) (Blue (Color2 ?s))
             (TotalSteps ?s) (Index ?s) = Some b"
      "uint b = lerp (uint (Blue (Color1 ?s))) (uint (Blue (Color2 ?s)))
                  (uint (TotalSteps ?s)) (uint (Index ?s))"
    using fade_channel_lerp [of "Index ?s" "TotalSteps ?s" iw "Blue (Color1 ?s)" "Blue (Color2 ?s)"]
    by (auto simp: channel_fits_def)
  from FadeUpdate_pixels [OF r(1) g(1) b(1)] obtain w'
    where w': "FadeUpdate iw k w = Some w'"
              "pixels (strip_of k w') = replicate (numPixels ?s) (Color r g b)" by blast
  show ?thesis
    using w' r(2) g(2) b(2)
    by (intro exI [of _ w'] exI [of _ "Color r g b"])
       (simp add: PulseUpdate_def Red_Color Green_Color Blue_Color)
qed

section \<open>The claims\<close>

text \<open>
  C1. The claim: in direction Reverse, \<open>Increment\<close> decrements \<open>Index\<close>, and when
  \<open>Index\<close> would go below 0 it resets \<open>Index\<close> to \<open>TotalSteps - 1\<close> and invokes the
  completion callback, once per traversal of \<open>[0, TotalSteps)\<close>.

  The code at that input, for a pattern of 50 steps: from \<open>Index = 0\<close> the unsigned
  counter wraps to 65535, there is no reset and the callback is not invoked; the reset and
  the callback happen one step early, when \<open>Index\<close> goes from 1 to 0, so step 0 is never
  shown in reverse.
\<close>

theorem Increment_reverse_at_zero:
  "Increment k (put_strip k (s\<lparr>Direction := REVERSE, TotalSteps := 50, Index := 0\<rparr>) w)
     = Some (put_strip k (s\<lparr>Direction := REVERSE, TotalSteps := 50, Index := 65535\<rparr>) w) \<and>
   Increment k (put_strip k (s\<lparr>Direction := REVERSE, TotalSteps := 50, Index := 1\<rparr>) w)
     = Some (complete (OnComplete s)
               (put_strip k (s\<lparr>Direction := REVERSE, TotalSteps := 50, Index := 49\<rparr>) w))"
  by (simp add: Increment_eq u16_minus_one)




text \<open>
  C3. The claim: a Pulse of \<open>TotalSteps\<close> steps started Forward at \<open>Index = 0\<close> is in
  direction Reverse at \<open>Index = TotalSteps - 1\<close> after \<open>TotalSteps\<close> elapsed ticks, and
  Forward at \<open>Index = 0\<close> again after another \<open>TotalSteps\<close> ticks, the callback having
  fired twice.

  The code, for the pulse that command \<open>'1'\<close> starts (50 steps, interval 10 ms, ticks
  every 11 ms): after 50 ticks it is Reverse at 49 with one callback, as claimed; it is
  back Forward at 0, with two callbacks, after 99 ticks, not 100, because the reverse pass
  skips step 0; after 100 ticks it is Forward at \<open>Index = 1\<close>.
\<close>

theorem Pulse_round_trip_99_ticks:
  "map_option (cursor S1) (run_updates iw (ticks_every S1 11 0 50) pulsing1) = Some (REVERSE, 49, 1) \<and>
   map_option (cursor S1) (run_updates iw (ticks_every S1 11 0 99) pulsing1) = Some (FORWARD, 0, 2) \<and>
   map_option (cursor S1) (run_updates iw (ticks_every S1 11 0 100) pulsing1) = Some (FORWARD, 1, 2)"
proof -
  have c: "cursor S1 pulsing1 = (FORWARD, 0, 0)"
    by (simp add: cursor_def pulsing1_Strip1 completions_pulsing1)
  have r: "\<exists>w'. run_updates iw (ticks_every S1 11 0 n) pulsing1 = Some w' \<and>
              cursor S1 w' = (pulse_next 50 ^^ n) (FORWARD, 0, 0)" for n
    using run_pulse [of S1 pulsing1 50 11 0 iw n] by (simp add: pulsing1_Strip1 c)
  from r [of 50] r [of 99] r [of 100] show ?thesis
    by (auto simp: pulse_50)
qed

text \<open>
  C4. The claim: for a Fade or Pulse state with \<open>0 < TotalSteps\<close> and
  \<open>Index < TotalSteps\<close>, one frame computation sets every cell to the colour whose
  channels are \<open>(channel1 * (TotalSteps - Index) + channel2 * Index) / TotalSteps\<close>. The
  code, on a board whose \<open>int\<close> has 16 bits, for a fade from red (255, 0, 0) to black in
  300 steps at \<open>Index = 0\<close>: the formula gives red 255; \<open>FadeUpdate\<close> computes
  \<open>255 * 300\<close> in unsigned 16-bit arithmetic, which is 10964, divides by 300 and fills
  the 300 cells with red 36. On a board whose \<open>int\<close> has 32 bits the same call fills them
  with red 255.
\<close>

theorem Fade_16_bit_overflow:
  "Index (Strip1 fade300) < TotalSteps (Strip1 fade300) \<and>
   lerp (uint (Red (Color1 (Strip1 fade300)))) (uint (Red (Color2 (Strip1 fade300))))
        (uint (TotalSteps (Strip1 fade300))) (uint (Index (Strip1 fade300))) = 255 \<and>
   map_option (pixels \<circ> Strip1) (FadeUpdate Int16 S1 fade300) = Some (replicate 300 (Color 36 0 0)) \<and>
   uint (Red (Color 36 0 0)) = 36 \<and>
   map_option (pixels \<circ> Strip1) (FadeUpdate Int32 S1 fade300) = Some (replicate 300 (Color 255 0 0))"
proof -
  have r: "fade_channel Int16 (Red (Color1 (strip_of S1 fade300))) (Red (Color2 (strip_of S1 fade300)))
             (TotalSteps (strip_of S1 fade300)) (Index (strip_of S1 fade300)) = Some 36"
    by (simp add: fade300_Strip1 Red_Color fade_channel_def)
  have g: "fade_channel Int16 (Green (Color1 (strip_of S1 fade300))) (Green (Color2 (strip_of S1 fade300)))
             (TotalSteps (strip_of S1 fade300)) (Index (strip_of S1 fade300)) = Some 0"
    by (simp add: fade300_Strip1 Green_Color fade_channel_def)
  have b: "fade_channel Int16 (Blue (Color1 (strip_of S1 fade300))) (Blue (Color2 (strip_of S1 fade300)))
             (TotalSteps (strip_of S1 fade300)) (Index (strip_of S1 fade300)) = Some 0"
    by (simp add: fade300_Strip1 Blue_Color fade_channel_def)
  have r': "fade_channel Int32 (Red (Color1 (strip_of S1 fade300))) (Red (Color2 (strip_of S1 fade300)))
             (TotalSteps (strip_of S1 fade300)) (Index (strip_of S1 fade300)) = Some 255"
    by (simp add: fade300_Strip1 Red_Color fade_channel_def signed_divide_int_def)
  have g': "fade_channel Int32 (Green (Color1 (strip_of S1 fade300))) (Green (Color2 (strip_of S1 fade300)))
             (TotalSteps (strip_of S1 fade300)) (Index (strip_of S1 fade300)) = Some 0"
    by (simp add: fade300_Strip1 Green_Color fade_channel_def signed_divide_int_def)
  have b': "fade_channel Int32 (Blue (Color1 (strip_of S1 fade300))) (Blue (Color2 (strip_of S1 fade300)))
             (TotalSteps (strip_of S1 fade300)) (Index (strip_of S1 fade300)) = Some 0"
    by (simp add: fade300_Strip1 Blue_Color fade_channel_def signed_divide_int_def)
  from FadeUpdate_pixels [OF r g b]
  have p: "map_option (pixels \<circ> Strip1) (FadeUpdate Int16 S1 fade300) = Some (replicate 300 (Color 36 0 0))"
    by (auto simp: fade300_Strip1)
  from FadeUpdate_pixels [OF r' g' b']
  have p': "map_option (pixels \<circ> Strip1) (FadeUpdate Int32 S1 fade300) = Some (replicate 300 (Color 255 0 0))"
    by (auto simp: fade300_Strip1)
  from p p' show ?thesis
    by (simp add: fade300_Strip1 Red_Color lerp_def)
qed

text \<open>
  C5. On a buffer of \<open>n\<close> cells, \<open>0 < n\<close> (and \<open>n \<le> 65535\<close>, the range of
  \<open>numPixels()\<close>), ColorWipe started Forward runs as follows. After \<open>j < n\<close> frames
  \<open>Index\<close> is \<open>j\<close>, cells \<open>0 .. j-1\<close> hold \<open>Color1\<close> and the cells from \<open>j\<close> on are
  untouched; frame \<open>j\<close> writes exactly cell \<open>j\<close> and commits the buffer once. After \<open>n\<close>
  frames every cell holds \<open>Color1\<close> and \<open>Index\<close> is back at 0. So the cells are set one
  per frame, in ascending order, none skipped and none written twice.
\<close>

theorem ColorWipe_full_cycle:
  assumes "numPixels (strip_of k w) = n" "0 < n" "n < 65536"
  shows "(\<forall>j<n. \<exists>wj wj'.
            repeat_update j (ColorWipeUpdate k)
              (put_strip k (ColorWipe color interval FORWARD (strip_of k w)) w) = Some wj \<and>
            Index (strip_of k wj) = of_nat j \<and>
            pixels (strip_of k wj) = replicate j color @ drop j (pixels (strip_of k w)) \<and>
            ColorWipeUpdate k wj = Some wj' \<and>
            pixels (strip_of k wj') = (pixels (strip_of k wj))[j := color] \<and>
            shown (strip_of k wj') = shown (strip_of k wj) @ [pixels (strip_of k wj')]) \<and>
         (\<exists>wn. repeat_update n (ColorWipeUpdate k)
              (put_strip k (ColorWipe color interval FORWARD (strip_of k w)) w) = Some wn \<and>
            pixels (strip_of k wn) = replicate n color \<and>
            Index (strip_of k wn) = 0)"
proof (intro conjI allI impI)
  fix j assume j: "j < n"
  let ?w0 = "put_strip k (ColorWipe color interval FORWARD (strip_of k w)) w"
  from wipe_prefix [OF assms(1,3) j, of color interval] obtain wj
    where wj: "repeat_update j (ColorWipeUpdate k) ?w0 = Some wj"
      "Color1 (strip_of k wj) = color" "Index (strip_of k wj) = of_nat j"
      "pixels (strip_of k wj) = replicate j color @ drop j (pixels (strip_of k w))"
    by blast
  have ju: "unat (of_nat j :: u16) = j" using j assms(3) by (intro u16_unat_of_nat) simp
  obtain wj' where i: "ColorWipeUpdate k wj = Some wj'"
    using Increment_total by (auto simp: ColorWipeUpdate_def Let_def)
  then have inc: "Increment k (put_strip k (showPixels
       (setPixelColor j color (strip_of k wj))) wj) = Some wj'"
    by (simp add: ColorWipeUpdate_def Let_def wj ju)
  have jl: "j < numPixels (strip_of k wj)"
    using j assms(1) by (simp add: numPixels_def wj(4))
  have "pixels (strip_of k wj') = (pixels (strip_of k wj))[j := color]"
       "shown (strip_of k wj') = shown (strip_of k wj) @ [(pixels (strip_of k wj))[j := color]]"
    using Increment_pixels [OF inc, of k] Increment_shown [OF inc, of k] jl
    by (simp_all add: showPixels_def setPixelColor_def)
  with wj i
  show "\<exists>wj wj'. repeat_update j (ColorWipeUpdate k) ?w0 = Some wj \<and>
            Index (strip_of k wj) = of_nat j \<and>
            pixels (strip_of k wj) = replicate j color @ drop j (pixels (strip_of k w)) \<and>
            ColorWipeUpdate k wj = Some wj' \<and>
            pixels (strip_of k wj') = (pixels (strip_of k wj))[j := color] \<and>
            shown (strip_of k wj') = shown (strip_of k wj) @ [pixels (strip_of k wj')]"
    by (intro exI [of _ wj] exI [of _ wj']) simp
next
  let ?w0 = "put_strip k (ColorWipe color interval FORWARD (strip_of k w)) w"
  obtain j where j: "n = Suc j" using assms(2) by (cases n) auto
  then have jn: "j < n" by simp
  from wipe_prefix [OF assms(1,3) jn, of color interval] obtain wj
    where wj: "repeat_update j (ColorWipeUpdate k) ?w0 = Some wj"
      "Direction (strip_of k wj) = FORWARD" "ActivePattern (strip_of k wj) = COLOR_WIPE"
      "Color1 (strip_of k wj) = color" "TotalSteps (strip_of k wj) = of_nat n"
      "Index (strip_of k wj) = of_nat j"
      "pixels (strip_of k wj) = replicate j color @ drop j (pixels (strip_of k w))"
    by blast
  have len: "length (pixels (strip_of k w)) = n" using assms(1) by (simp add: numPixels_def)
  have np: "numPixels (strip_of k wj) = n"
    using wj(7) len jn by (simp add: numPixels_def)
  from ColorWipeUpdate_last [OF wj(2) wj(3) wj(6) wj(5) np assms(3) j [symmetric]]
  obtain wn where wn: "ColorWipeUpdate k wj = Some wn"
     "strip_of k wn = (strip_of k wj)
              \<lparr>pixels := (pixels (strip_of k wj))[j := Color1 (strip_of k wj)],
               shown := shown (strip_of k wj) @ [(pixels (strip_of k wj))[j := Color1 (strip_of k wj)]],
               Index := 0\<rparr>"
    by blast
  have "(pixels (strip_of k wj))[j := color] = replicate (Suc j) color @ drop (Suc j) (pixels (strip_of k w))"
    using jn len by (simp only: wj(7)) (rule update_replicate_drop, simp)
  then have "pixels (strip_of k wn) = replicate n color"
    using len j by (simp add: wn(2) wj(4))
  moreover have "repeat_update n (ColorWipeUpdate k) ?w0 = Some wn"
    by (simp add: j wj(1) wn(1))
  moreover have "Index (strip_of k wn) = 0" by (simp add: wn(2))
  ultimately show "\<exists>wn. repeat_update n (ColorWipeUpdate k) ?w0 = Some wn \<and>
            pixels (strip_of k wn) = replicate n color \<and> Index (strip_of k wn) = 0"
    by blast
qed

text \<open>
  On strip 1 at power-on (300 cells), wiped green: the state after 7 frames and after
  all 300.
\<close>

theorem ColorWipe_full_cycle_witness:
  "numPixels (strip_of S1 power_on) = 300 \<and> (0::nat) < 300 \<and> (300::nat) < 65536 \<and> (7::nat) < 300 \<and>
   (\<exists>wj wj'.
      repeat_update 7 (ColorWipeUpdate S1)
        (put_strip S1 (ColorWipe (Color 0 255 0) 20 FORWARD (strip_of S1 power_on)) power_on) = Some wj \<and>
      Index (strip_of S1 wj) = of_nat 7 \<and>
      pixels (strip_of S1 wj) = replicate 7 (Color 0 255 0) @ drop 7 (pixels (strip_of S1 power_on)) \<and>
      ColorWipeUpdate S1 wj = Some wj' \<and>
      pixels (strip_of S1 wj') = (pixels (strip_of S1 wj))[7 := Color 0 255 0] \<and>
      shown (strip_of S1 wj') = shown (strip_of S1 wj) @ [pixels (strip_of S1 wj')]) \<and>
   (\<exists>wn. repeat_update 300 (ColorWipeUpdate S1)
        (put_strip S1 (ColorWipe (Color 0 255 0) 20 FORWARD (strip_of S1 power_on)) power_on) = Some wn \<and>
      pixels (strip_of S1 wn) = replicate 300 (Color 0 255 0) \<and>
      Index (strip_of S1 wn) = 0)"
proof -
  have a: "numPixels (strip_of S1 power_on) = 300"
    by (simp add: power_on_def new_NeoPatterns_def numPixels_def)
  have b: "(0::nat) < 300" "(300::nat) < 65536" "(7::nat) < 300" by simp_all
  from ColorWipe_full_cycle [OF a b(1) b(2), of "Color 0 255 0" 20] a b
  show ?thesis by blast
qed

text \<open>
  C6. The claim: \<open>0 \<le> Index < TotalSteps\<close> holds after every operation, pattern
  initialisation with either direction included.

  The code: \<open>Fade\<close> initialised in direction Reverse satisfies the invariant
  (\<open>Index = 0\<close>, 50 steps), and the first \<open>Increment\<close> leaves it, with
  \<open>Index = 65535\<close>.
\<close>

theorem Fade_reverse_leaves_range:
  "Index (Fade c1 c2 50 10 REVERSE s) < TotalSteps (Fade c1 c2 50 10 REVERSE s) \<and>
   Increment k (put_strip k (Fade c1 c2 50 10 REVERSE s) w)
     = Some (put_strip k ((Fade c1 c2 50 10 REVERSE s)\<lparr>Index := 65535\<rparr>) w) \<and>
   \<not> (65535 :: u16) < TotalSteps (Fade c1 c2 50 10 REVERSE s)"
  by (simp add: Increment_eq Fade_def u16_minus_one)

text \<open>
  C7. Pulse renders exactly as Fade: \<open>PulseUpdate\<close> is \<open>FadeUpdate\<close>, and a tick of a
  strip whose pattern is Pulse leaves the same buffer and pushes the same frames to the
  device as the tick of the same strip with pattern Fade (same colours, steps, index and
  buffer), or is undefined for both.
\<close>

theorem Pulse_renders_as_Fade:
  "PulseUpdate iw k w = FadeUpdate iw k w \<and>
   map_option (\<lambda>w'. (pixels (strip_of k w'), shown (strip_of k w')))
     (Update iw k now now' (put_strip k ((strip_of k w)\<lparr>ActivePattern := PULSE\<rparr>) w)) =
   map_option (\<lambda>w'. (pixels (strip_of k w'), shown (strip_of k w')))
     (Update iw k now now' (put_strip k ((strip_of k w)\<lparr>ActivePattern := FADE\<rparr>) w))"
  by (simp add: PulseUpdate_def Update_def Let_def FadeUpdate_buffers numPixels_def
           cong: option.case_cong)

text \<open>
  C8. From every state of strip 1, whatever it was doing: command \<open>'4'\<close>, any updates of
  the three strips, command \<open>'7'\<close>, and again any updates of the three strips, leave
  strip 1 with pattern \<open>NONE\<close> and every cell amber \<open>(127, 127, 0)\<close>. The updates all
  return, provided the frame computations of strips 2 and 3 are defined; nothing is asked
  of strip 1.
\<close>

theorem wrong_then_right_cube:
  assumes "update_defined iw (Strip2 w)" "update_defined iw (Strip3 w)"
  shows "\<exists>w1 w2. run_updates iw mid (read_from_serial (Some 52) w) = Some w1 \<and>
                 run_updates iw post (read_from_serial (Some 55) w1) = Some w2 \<and>
                 ActivePattern (Strip1 w2) = NONE \<and>
                 pixels (Strip1 w2) = replicate (numPixels (Strip1 w)) (Color 127 127 0)"
proof -
  let ?w4 = "read_from_serial (Some 52) w"
  have a4: "ActivePattern (Strip1 ?w4) = NONE" "numPixels (Strip1 ?w4) = numPixels (Strip1 w)"
           "Strip2 ?w4 = Strip2 w" "Strip3 ?w4 = Strip3 w"
    by (simp_all add: read_from_serial_def idle_solid_eq numPixels_def)
  from run_updates_idle1 [of ?w4 iw mid] a4 assms obtain w1
    where w1: "run_updates iw mid ?w4 = Some w1" "pixels (Strip1 w1) = pixels (Strip1 ?w4)"
      "update_defined iw (Strip2 w1)" "update_defined iw (Strip3 w1)" by auto
  let ?w7 = "read_from_serial (Some 55) w1"
  have n1: "numPixels (Strip1 w1) = numPixels (Strip1 w)"
    using w1(2) a4(2) by (simp add: numPixels_def)
  have a7: "ActivePattern (Strip1 ?w7) = NONE"
           "pixels (Strip1 ?w7) = replicate (numPixels (Strip1 w)) (Color 127 127 0)"
           "Strip2 ?w7 = Strip2 w1" "Strip3 ?w7 = Strip3 w1"
    by (simp_all add: read_from_serial_def idle_solid_eq n1)
  from run_updates_idle1 [of ?w7 iw post] a7 w1 obtain w2
    where "run_updates iw post ?w7 = Some w2" "ActivePattern (Strip1 w2) = NONE"
          "pixels (Strip1 w2) = pixels (Strip1 ?w7)" by auto
  with w1(1) a7(2) show ?thesis by auto
qed

text \<open>
  With strip 1 in the middle of its pulse, updates of strips 1 and 2 between the two
  commands and of strips 3 and 1 after them.
\<close>

theorem wrong_then_right_cube_witness:
  "update_defined Int16 (Strip2 pulsing1) \<and> update_defined Int16 (Strip3 pulsing1) \<and>
   (\<exists>w1 w2.
      run_updates Int16 [(S1, 11, 11), (S2, 11, 12)] (read_from_serial (Some 52) pulsing1) = Some w1 \<and>
      run_updates Int16 [(S3, 30, 30), (S1, 31, 31)] (read_from_serial (Some 55) w1) = Some w2 \<and>
      ActivePattern (Strip1 w2) = NONE \<and>
      pixels (Strip1 w2) = replicate (numPixels (Strip1 pulsing1)) (Color 127 127 0))"
proof -
  have a: "update_defined Int16 (Strip2 pulsing1)"
    by (simp add: update_defined_def pulsing1_others)
  have b: "update_defined Int16 (Strip3 pulsing1)"
    by (simp add: update_defined_def pulsing1_others)
  from a b wrong_then_right_cube [OF a b, of "[(S1, 11, 11), (S2, 11, 12)]"
          "[(S3, 30, 30), (S1, 31, 31)]"]
  show ?thesis by blast
qed

text \<open>
  C9. With a null completion callback, \<open>Increment\<close> never faults, and it changes nothing
  but \<open>Index\<close>, which gets the same value as with a callback installed (\<open>next_Index\<close>,
  the reset value at a cycle boundary): the callback is not invoked. With a callback
  \<open>cb\<close> in its place the result is the same state, followed at a cycle boundary, and only
  there, by the call of \<open>cb\<close>.
\<close>

theorem Increment_null_callback:
  "OnComplete (strip_of k w) = NULL \<Longrightarrow>
     Increment k w
       = Some (put_strip k ((strip_of k w)\<lparr>Index := next_Index (strip_of k w)\<rparr>) w) \<and>
     Increment k (put_strip k ((strip_of k w)\<lparr>OnComplete := cb\<rparr>) w)
       = Some ((if at_boundary (strip_of k w) then complete cb else id)
                 (put_strip k ((strip_of k w)\<lparr>OnComplete := cb,
                                                Index := next_Index (strip_of k w)\<rparr>) w))"
  by (simp add: Increment_step complete_def at_boundary_def next_Index_def)

text \<open>
  At the forward boundary of a 50-step pattern, \<open>Index = 49\<close>.
\<close>

theorem Increment_null_callback_witness:
  "OnComplete (strip_of S1 (put_strip S1 ((Strip1 pulsing1)\<lparr>OnComplete := NULL, Index := 49\<rparr>) pulsing1))
     = NULL \<and>
   Increment S1 (put_strip S1 ((Strip1 pulsing1)\<lparr>OnComplete := NULL, Index := 49\<rparr>) pulsing1)
     = Some (put_strip S1 ((Strip1 pulsing1)\<lparr>OnComplete := NULL, Index := 0\<rparr>) pulsing1) \<and>
   Increment S1 (put_strip S1 ((Strip1 pulsing1)\<lparr>Index := 49, OnComplete := StripCompletePtr\<rparr>) pulsing1)
     = Some (StripComplete
        (put_strip S1 ((Strip1 pulsing1)\<lparr>OnComplete := StripCompletePtr, Index := 0\<rparr>) pulsing1))"
  using Increment_null_callback
    [of S1 "put_strip S1 ((Strip1 pulsing1)\<lparr>OnComplete := NULL, Index := 49\<rparr>) pulsing1"
        StripCompletePtr]
  by (simp add: next_Index_def at_boundary_def pulsing1_Strip1 complete_def)




end
